theory Spec2Isabelle
  imports Complex_Main "HOL-Library.Word"
begin

unbundle bit_operations_syntax

section \<open>Model loading and caching (gl\_model.c)\<close>

text \<open>
  A shallow embedding of the parts of \<^verbatim>\<open>src/common/gl_model.c\<close> that the
  specification describes. \<^verbatim>\<open>Sys_Error\<close> never returns: every call of it ends the
  function with a \<open>fault\<close> that carries the message of the source (without its format
  arguments), as the \<open>Inl\<close> branch of a sum or as the outcome \<open>Fatal\<close>.
\<close>

datatype fault = Sys_Error string

type_synonym byte = "8 word"

text \<open>
  Some functions can also leave what C defines: by a read or a write outside an array, by
  an overflow of a signed integer, or by a conversion whose value does not fit. The
  outcome \<open>Undefined\<close> stands for that; the model does not follow the program further.
\<close>

datatype 'a outcome = Fatal fault | Undefined | Returns 'a

subsection \<open>The C type \<^verbatim>\<open>float\<close>\<close>

text \<open>
  A \<^verbatim>\<open>float\<close> is an IEEE 754 single-precision value: not a number, one of the two
  infinities, or a finite number, given by its real value. The two zeros are one value
  here; no comparison and no conversion to an integer tells them apart. Every
  arithmetic operation rounds its exact result to the nearest \<^verbatim>\<open>float\<close>, a tie to the
  one with the even significand, as C does where \<^verbatim>\<open>float\<close> expressions are evaluated
  in \<^verbatim>\<open>float\<close> and a multiplication is not fused with the addition that follows it.
\<close>

datatype float = NaN | PInf | NInf | Fin real

text \<open>The nearest integer, a tie to the even one.\<close>

definition round_even :: "real \<Rightarrow> int" where
  "round_even y =
     (let f = \<lfloor>y\<rfloor>; d = y - of_int f
      in if d < 1 / 2 then f else if 1 / 2 < d then f + 1 else if even f then f else f + 1)"

text \<open>
  The binary exponent of a magnitude \<open>y\<close>, kept between -126 and 127: the \<open>e\<close> with
  \<open>2 ^ e \<le> y < 2 ^ (e + 1)\<close>, and -126 for the magnitudes below \<open>2 ^ - 126\<close> (the
  subnormal numbers).
\<close>

function expo_up :: "real \<Rightarrow> int \<Rightarrow> int" where
  "expo_up y e = (if 2 \<le> y \<and> e < 127 then expo_up (y / 2) (e + 1) else e)"
  by pat_completeness auto
termination
  by (relation "measure (\<lambda>(y, e). nat (127 - e))") auto

function expo_down :: "real \<Rightarrow> int \<Rightarrow> int" where
  "expo_down y e = (if y < 1 \<and> - 126 < e then expo_down (2 * y) (e - 1) else e)"
  by pat_completeness auto
termination
  by (relation "measure (\<lambda>(y, e). nat (e + 126))") auto

declare expo_up.simps [simp del] expo_down.simps [simp del]

definition expo :: "real \<Rightarrow> int" where
  "expo y = (if 1 \<le> y then expo_up y 0 else expo_down y 0)"

text \<open>
  Rounding a real number to a \<^verbatim>\<open>float\<close>: to the nearest multiple of the unit in the
  last of the 24 places of its binade, and to an infinity from \<open>2 ^ 128\<close> on.
\<close>

definition round32 :: "real \<Rightarrow> float" where
  "round32 x =
     (let q = 2 powi (expo \<bar>x\<bar> - 23); r = of_int (round_even (x / q)) * q
      in if 2 ^ 128 \<le> r then PInf else if r \<le> - (2 ^ 128) then NInf else Fin r)"

text \<open>The real numbers that are the value of a \<^verbatim>\<open>float\<close>.\<close>

definition float_value :: "real \<Rightarrow> bool" where
  "float_value x = (round32 x = Fin x)"

fun is_float :: "float \<Rightarrow> bool" where
  "is_float (Fin x) = float_value x"
| "is_float a = True"

fun fneg :: "float \<Rightarrow> float" where
  "fneg (Fin x) = Fin (- x)"
| "fneg PInf = NInf"
| "fneg NInf = PInf"
| "fneg NaN = NaN"

fun fadd :: "float \<Rightarrow> float \<Rightarrow> float" where
  "fadd (Fin x) (Fin y) = round32 (x + y)"
| "fadd NaN b = NaN"
| "fadd a NaN = NaN"
| "fadd PInf NInf = NaN"
| "fadd NInf PInf = NaN"
| "fadd PInf b = PInf"
| "fadd a PInf = PInf"
| "fadd NInf b = NInf"
| "fadd a NInf = NInf"

definition fsub :: "float \<Rightarrow> float \<Rightarrow> float" where
  "fsub a b = fadd a (fneg b)"

text \<open>The sign of a product with an infinity; zero times infinity is not a number.\<close>

fun inf_times :: "bool \<Rightarrow> float \<Rightarrow> float" where
  "inf_times pos NaN = NaN"
| "inf_times pos PInf = (if pos then PInf else NInf)"
| "inf_times pos NInf = (if pos then NInf else PInf)"
| "inf_times pos (Fin x) =
     (if x = 0 then NaN else if (0 < x) = pos then PInf else NInf)"

fun fmul :: "float \<Rightarrow> float \<Rightarrow> float" where
  "fmul (Fin x) (Fin y) = round32 (x * y)"
| "fmul NaN b = NaN"
| "fmul a NaN = NaN"
| "fmul PInf b = inf_times True b"
| "fmul NInf b = inf_times False b"
| "fmul a PInf = inf_times True a"
| "fmul a NInf = inf_times False a"

text \<open>Division by the constant 16, as in \<^verbatim>\<open>mins[i] / 16\<close>.\<close>

fun fdiv16 :: "float \<Rightarrow> float" where
  "fdiv16 (Fin x) = round32 (x / 16)"
| "fdiv16 a = a"

text \<open>The comparisons \<^verbatim>\<open><\<close> and \<^verbatim>\<open><=\<close>; both are false when an operand is not a number.\<close>

fun flt :: "float \<Rightarrow> float \<Rightarrow> bool" where
  "flt (Fin x) (Fin y) = (x < y)"
| "flt NaN b = False"
| "flt a NaN = False"
| "flt a NInf = False"
| "flt PInf b = False"
| "flt NInf b = True"
| "flt a PInf = True"

fun fle :: "float \<Rightarrow> float \<Rightarrow> bool" where
  "fle (Fin x) (Fin y) = (x \<le> y)"
| "fle NaN b = False"
| "fle a NaN = False"
| "fle NInf b = True"
| "fle a PInf = True"
| "fle a NInf = False"
| "fle PInf b = False"

definition FLT_MAX :: float where
  "FLT_MAX = Fin 340282346638528859811704183484516925440"

subsection \<open>Visibility decompression: \<^verbatim>\<open>Mod_DecompressVis\<close>\<close>









subsection \<open>The model registry: \<^verbatim>\<open>Mod_FindName\<close>, \<^verbatim>\<open>Mod_TouchModel\<close>\<close>

datatype modtype_t = mod_brush | mod_sprite | mod_alias

text \<open>
  The fields of \<^verbatim>\<open>model_t\<close> that the registry functions read or write;
  \<open>cache_data\<close> is \<^verbatim>\<open>cache.data\<close>, an opaque handle, \<open>None\<close> the null pointer.
\<close>

record model_t =
  name :: string
  needload :: bool
  type :: modtype_t
  cache_data :: "nat option"

text \<open>
  The static array \<^verbatim>\<open>mod_known[MAX_MOD_KNOWN]\<close> with its counter. \<^verbatim>\<open>Cache_Check\<close>
  belongs to the cache, outside this file: \<open>cache_checked\<close> only records for which
  slots it was called, latest first.
\<close>

record registry =
  mod_known :: "nat \<Rightarrow> model_t"
  mod_numknown :: nat
  cache_checked :: "nat list"

definition MAX_MOD_KNOWN :: nat where
  "MAX_MOD_KNOWN = 512"

text \<open>
  \<^verbatim>\<open>for (i = 0, mod = mod_known; i < mod_numknown; i++, mod++)
    if (!strcmp(mod->name, name)) break;\<close>
  started at \<open>i\<close>; the value is the \<open>i\<close> the loop ends with.
\<close>

function find_slot :: "registry \<Rightarrow> string \<Rightarrow> nat \<Rightarrow> nat" where
  "find_slot r nm i =
     (if i < mod_numknown r
      then (if model_t.name (mod_known r i) = nm then i else find_slot r nm (Suc i))
      else i)"
  by pat_completeness auto
termination
  by (relation "measure (\<lambda>(r, nm, i). mod_numknown r - i)") auto

declare find_slot.simps [simp del]

text \<open>
  \<^verbatim>\<open>Mod_FindName\<close> returns the slot and the registry after it. \<open>MAX_QPATH\<close> is
  declared outside this file and is a parameter; \<^verbatim>\<open>strncpy\<close> followed by the
  terminating zero keeps the first \<open>MAX_QPATH - 1\<close> characters of the name.
\<close>

definition Mod_FindName :: "nat \<Rightarrow> string \<Rightarrow> registry \<Rightarrow> fault + (nat \<times> registry)" where
  "Mod_FindName MAX_QPATH nm r =
     (if nm = [] then Inl (Sys_Error ''Mod_FindName: NULL name'')
      else
        (let i = find_slot r nm 0
         in if i = mod_numknown r then
              (if mod_numknown r = MAX_MOD_KNOWN
               then Inl (Sys_Error ''mod_numknown == MAX_MOD_KNOWN'')
               else Inr (i, r\<lparr>mod_known := (mod_known r)
                                  (i := (mod_known r i)\<lparr>model_t.name := take (MAX_QPATH - 1) nm,
                                                         needload := True\<rparr>),
                               mod_numknown := mod_numknown r + 1\<rparr>))
            else Inr (i, r)))"

definition Mod_TouchModel :: "nat \<Rightarrow> string \<Rightarrow> registry \<Rightarrow> fault + registry" where
  "Mod_TouchModel MAX_QPATH nm r =
     (case Mod_FindName MAX_QPATH nm r of
        Inl e \<Rightarrow> Inl e
      | Inr (i, r') \<Rightarrow>
          (if \<not> model_t.needload (mod_known r' i) then
             (if type (mod_known r' i) = mod_alias
              then Inr (r'\<lparr>cache_checked := i # cache_checked r'\<rparr>)
              else Inr r')
           else Inr r'))"

text \<open>The registry at program start: static storage, all zero.\<close>

definition registry_init :: registry where
  "registry_init =
     \<lparr>mod_known = (\<lambda>_. \<lparr>model_t.name = [], needload = False, type = mod_brush, cache_data = None\<rparr>),
      mod_numknown = 0, cache_checked = []\<rparr>"

subsection \<open>The lump table check of \<^verbatim>\<open>Mod_LoadBrushModel\<close>\<close>

text \<open>
  A lump as the header holds it after \<^verbatim>\<open>LittleLong\<close>: two C \<^verbatim>\<open>int\<close>s. They are
  32-bit words; \<open><s\<close> is the signed comparison and \<open>+\<close> wraps, as the source's comment
  "end might overflow" expects.
\<close>

record lump_t =
  fileofs :: "32 word"
  filelen :: "32 word"

text \<open>
  The inner loop over \<open>j\<close>, for the lump \<open>[b1, e1)\<close>, over the lumps that are left:
  \<^verbatim>\<open>if ((b1 < b2 && e1 > b2) || (b2 < b1 && e2 > b1)) Sys_Error(...)\<close>.
\<close>

fun overlap_loop :: "32 word \<Rightarrow> 32 word \<Rightarrow> lump_t list \<Rightarrow> fault + unit" where
  "overlap_loop b1 e1 [] = Inr ()"
| "overlap_loop b1 e1 (l # ls) =
     (let b2 = fileofs l; e2 = b2 + filelen l
      in if (b1 <s b2 \<and> b2 <s e1) \<or> (b2 <s b1 \<and> b1 <s e2)
         then Inl (Sys_Error ''Mod_LoadBrushModel: overlapping lumps'')
         else overlap_loop b1 e1 ls)"

text \<open>
  The outer loop over \<open>i\<close>. \<open>lumps\<close> is the whole table \<^verbatim>\<open>header->lumps\<close> (its length
  is \<^verbatim>\<open>HEADER_LUMPS\<close>, declared outside this file), the third argument the lumps from
  \<open>i\<close> on. \<open>size'\<close> is the source's \<^verbatim>\<open>size\<close>, an \<^verbatim>\<open>unsigned long\<close>, taken as 64 bits wide: in
  \<^verbatim>\<open>e1 > size\<close> the \<^verbatim>\<open>int\<close> is converted to it, which \<open>scast\<close> does.
\<close>

fun extents_loop :: "64 word \<Rightarrow> lump_t list \<Rightarrow> lump_t list \<Rightarrow> fault + unit" where
  "extents_loop size' lumps [] = Inr ()"
| "extents_loop size' lumps (l # rest) =
     (let b1 = fileofs l; e1 = b1 + filelen l
      in if e1 <s b1 \<or> size' < scast e1 \<or> b1 <s 0 \<or> e1 <s 0
         then Inl (Sys_Error ''Mod_LoadBrushModel: bad lump extents'')
         else (case overlap_loop b1 e1 lumps of
                 Inl e \<Rightarrow> Inl e
               | Inr _ \<Rightarrow> extents_loop size' lumps rest))"

definition check_lump_extents :: "64 word \<Rightarrow> lump_t list \<Rightarrow> fault + unit" where
  "check_lump_extents size' lumps = extents_loop size' lumps lumps"



subsection \<open>The header checks of \<^verbatim>\<open>Mod_LoadAliasModel\<close>\<close>

text \<open>The fields of the file header \<^verbatim>\<open>mdl_t\<close> that are checked, after \<^verbatim>\<open>LittleLong\<close>.\<close>

record mdl_t =
  version :: int
  numskins :: int
  skinwidth :: int
  skinheight :: int
  numverts :: int
  numtris :: int
  numframes :: int

text \<open>
  The constants of the checks are declared outside this file and are parameters.
  \<open>MAXALIASTRIS\<close> is the length of the static array \<^verbatim>\<open>triangles\<close>.
\<close>

record alias_limits =
  ALIAS_VERSION :: int
  MAX_LBM_HEIGHT :: int
  MAXALIASVERTS :: int
  MAXALIASTRIS :: int

text \<open>
  The checks in the order of the source. (\<^verbatim>\<open>Hunk_AllocName\<close>, called between the
  first and the second, belongs to the allocator and is left out.)
\<close>

definition alias_header_checks :: "alias_limits \<Rightarrow> mdl_t \<Rightarrow> fault + unit" where
  "alias_header_checks L h =
     (if version h \<noteq> ALIAS_VERSION L then Inl (Sys_Error ''wrong version number'')
      else if skinheight h > MAX_LBM_HEIGHT L then Inl (Sys_Error ''model has a skin taller than MAX_LBM_HEIGHT'')
      else if numverts h \<le> 0 then Inl (Sys_Error ''model has no vertices'')
      else if numverts h > MAXALIASVERTS L then Inl (Sys_Error ''model has too many vertices'')
      else if numtris h \<le> 0 then Inl (Sys_Error ''model has no triangles'')
      else if mdl_t.numframes h < 1 then Inl (Sys_Error ''Mod_LoadAliasModel: Invalid # of frames'')
      else Inr ())"

text \<open>
  The indices \<open>i\<close> of \<^verbatim>\<open>triangles[i]\<close> that the loop
  \<^verbatim>\<open>for (i = 0; i < pheader->numtris; i++)\<close> writes.
\<close>

definition triangles_written :: "mdl_t \<Rightarrow> nat list" where
  "triangles_written h = [0 ..< nat (numtris h)]"

subsection \<open>Skin groups in \<^verbatim>\<open>Mod_LoadAllSkins\<close>\<close>

text \<open>
  One row \<^verbatim>\<open>gl_texturenum[i]\<close> of four texture handles, for a skin group.
  \<^verbatim>\<open>GL_LoadTexture\<close> belongs to the renderer: the parameter gives the handle it
  returns for sub-image \<open>j\<close>. The first loop:
  \<^verbatim>\<open>for (j = 0; j < groupskins; j++) gl_texturenum[i][j & 3] = GL_LoadTexture(...);\<close>
  The value is the final \<open>j\<close> and the row.
\<close>

function skin_upload_loop :: "(nat \<Rightarrow> 'h) \<Rightarrow> int \<Rightarrow> nat \<Rightarrow> 'h list \<Rightarrow> nat \<times> 'h list" where
  "skin_upload_loop GL_LoadTexture groupskins j row =
     (if int j < groupskins
      then skin_upload_loop GL_LoadTexture groupskins (Suc j) (row[j AND 3 := GL_LoadTexture j])
      else (j, row))"
  by pat_completeness auto
termination
  by (relation "measure (\<lambda>(up, groupskins, j, row). nat (groupskins - int j))") auto

declare skin_upload_loop.simps [simp del]

text \<open>
  The second loop:
  \<^verbatim>\<open>for ( ; j < 4; j++) gl_texturenum[i][j & 3] = gl_texturenum[i][j - k];\<close>
\<close>

function skin_fill_loop :: "nat \<Rightarrow> nat \<Rightarrow> 'h list \<Rightarrow> 'h list" where
  "skin_fill_loop k j row =
     (if j < 4 then skin_fill_loop k (Suc j) (row[j AND 3 := row ! (j - k)]) else row)"
  by pat_completeness auto
termination
  by (relation "measure (\<lambda>(k, j, row). 4 - j)") auto

declare skin_fill_loop.simps [simp del]

definition load_skin_group :: "(nat \<Rightarrow> 'h) \<Rightarrow> int \<Rightarrow> 'h list \<Rightarrow> 'h list" where
  "load_skin_group GL_LoadTexture groupskins row =
     (case skin_upload_loop GL_LoadTexture groupskins 0 row of
        (j, row') \<Rightarrow> skin_fill_loop j j row')"

subsection \<open>Alias frames: \<^verbatim>\<open>Mod_LoadAliasFrame\<close>, \<^verbatim>\<open>Mod_LoadAliasGroup\<close>\<close>

text \<open>
  The frame section of the file as the loader's pointers walk over it. A
  \<^verbatim>\<open>trivertx_t\<close> is its four bytes \<^verbatim>\<open>v[0], v[1], v[2], lightnormalindex\<close>. In a
  group, \<open>intervals g i\<close> is the \<^verbatim>\<open>float\<close> that \<^verbatim>\<open>LittleFloat(in->intervals[i].interval)\<close>
  gives (any bit pattern can stand in the file, so it can be an infinity or not a
  number) and \<open>frames g i\<close> the \<open>i\<close>-th sub-frame record behind the interval table. A
  frame type other than \<^verbatim>\<open>ALIAS_SINGLE\<close> is read as a group.
\<close>

type_synonym trivertx_t = "byte list"

record daliasframe_t =
  bboxmin :: trivertx_t
  bboxmax :: trivertx_t
  name :: string
  verts :: "trivertx_t list"

record daliasgroup_t =
  numframes :: int
  bboxmin :: trivertx_t
  bboxmax :: trivertx_t
  intervals :: "nat \<Rightarrow> float"
  frames :: "nat \<Rightarrow> daliasframe_t"

datatype daliasframetype_t = ALIAS_SINGLE daliasframe_t | ALIAS_GROUP daliasgroup_t

record maliasframedesc_t =
  firstpose :: int
  numposes :: int
  bboxmin :: trivertx_t
  bboxmax :: trivertx_t
  name :: string

text \<open>
  The file-static pose cursor \<^verbatim>\<open>posenum\<close> and the static arrays
  \<^verbatim>\<open>poseverts[MAXALIASFRAMES]\<close> and \<^verbatim>\<open>poseintervals[MAXALIASFRAMES]\<close> it indexes, by
  index. \<open>MAXALIASFRAMES\<close> is declared outside this file and is a parameter. The source
  never compares the cursor with it: a write at an index from \<open>MAXALIASFRAMES\<close> on is
  outside the arrays and \<open>Undefined\<close>.
\<close>

record pose_tables =
  posenum :: nat
  poseverts :: "nat \<Rightarrow> trivertx_t list"
  poseintervals :: "nat \<Rightarrow> float"

text \<open>
  \<open>namesize\<close> is \<^verbatim>\<open>sizeof(frame->name)\<close>, declared outside this file. Of a bounding
  box only \<^verbatim>\<open>v[0..2]\<close> are copied.
\<close>

definition Mod_LoadAliasFrame ::
    "nat \<Rightarrow> nat \<Rightarrow> daliasframe_t \<Rightarrow> maliasframedesc_t \<Rightarrow> pose_tables
       \<Rightarrow> (maliasframedesc_t \<times> pose_tables) outcome" where
  "Mod_LoadAliasFrame MAXALIASFRAMES namesize inp frame st =
     (let frame' = frame\<lparr>maliasframedesc_t.name := take (namesize - 1) (daliasframe_t.name inp),
                          firstpose := int (posenum st),
                          numposes := 1,
                          maliasframedesc_t.bboxmin :=
                            take 3 (daliasframe_t.bboxmin inp) @ drop 3 (maliasframedesc_t.bboxmin frame),
                          maliasframedesc_t.bboxmax :=
                            take 3 (daliasframe_t.bboxmax inp) @ drop 3 (maliasframedesc_t.bboxmax frame)\<rparr>
      in if MAXALIASFRAMES \<le> posenum st then Undefined
         else Returns (frame',
                st\<lparr>poseverts := (poseverts st)(posenum st := verts inp),
                   poseintervals := (poseintervals st)(posenum st := Fin 999),
                   posenum := posenum st + 1\<rparr>))"

text \<open>
  The loop of \<^verbatim>\<open>Mod_LoadAliasGroup\<close> over the sub-frames, from \<open>i\<close> on:
  \<^verbatim>\<open>poseverts[posenum] = dframe->verts;
  poseintervals[posenum] = LittleFloat(in->intervals[i].interval);
  if (poseintervals[posenum] <= 0) Sys_Error(...);
  posenum++;\<close>
  The comparison is one of \<^verbatim>\<open>float\<close>s, the \<^verbatim>\<open>0\<close> converted.
\<close>

function group_poses :: "nat \<Rightarrow> daliasgroup_t \<Rightarrow> nat \<Rightarrow> pose_tables \<Rightarrow> pose_tables outcome" where
  "group_poses MAXALIASFRAMES g i st =
     (if int i < daliasgroup_t.numframes g then
        (if MAXALIASFRAMES \<le> posenum st then Undefined
         else
           (let st1 = st\<lparr>poseverts := (poseverts st)(posenum st := verts (frames g i)),
                         poseintervals := (poseintervals st)(posenum st := intervals g i)\<rparr>
            in if fle (poseintervals st1 (posenum st1)) (Fin 0)
               then Fatal (Sys_Error ''Mod_LoadAliasGroup: interval <= 0'')
               else group_poses MAXALIASFRAMES g (Suc i) (st1\<lparr>posenum := posenum st1 + 1\<rparr>)))
      else Returns st)"
  by pat_completeness auto
termination
  by (relation "measure (\<lambda>(c, g, i, st). nat (daliasgroup_t.numframes g - int i))") auto

declare group_poses.simps [simp del]

definition Mod_LoadAliasGroup ::
    "nat \<Rightarrow> nat \<Rightarrow> daliasgroup_t \<Rightarrow> maliasframedesc_t \<Rightarrow> pose_tables
       \<Rightarrow> (maliasframedesc_t \<times> pose_tables) outcome" where
  "Mod_LoadAliasGroup MAXALIASFRAMES namesize inp frame st =
     (let frame' = frame\<lparr>firstpose := int (posenum st),
                          numposes := daliasgroup_t.numframes inp,
                          maliasframedesc_t.bboxmin :=
                            take 3 (daliasgroup_t.bboxmin inp) @ drop 3 (maliasframedesc_t.bboxmin frame),
                          maliasframedesc_t.bboxmax :=
                            take 3 (daliasgroup_t.bboxmax inp) @ drop 3 (maliasframedesc_t.bboxmax frame),
                          maliasframedesc_t.name :=
                            take (namesize - 1) (daliasframe_t.name (frames inp 0))\<rparr>
      in case group_poses MAXALIASFRAMES inp 0 st of
           Fatal e \<Rightarrow> Fatal e
         | Undefined \<Rightarrow> Undefined
         | Returns st' \<Rightarrow> Returns (frame', st'))"

text \<open>
  The frame loop of \<^verbatim>\<open>Mod_LoadAliasModel\<close>, over the frames of the file in their
  order; the descriptors \<^verbatim>\<open>pheader->frames[i]\<close> are fresh zeroed storage.
\<close>

definition frame_zero :: maliasframedesc_t where
  "frame_zero =
     \<lparr>firstpose = 0, numposes = 0, maliasframedesc_t.bboxmin = [0, 0, 0, 0],
      maliasframedesc_t.bboxmax = [0, 0, 0, 0], maliasframedesc_t.name = []\<rparr>"

fun load_frames ::
    "nat \<Rightarrow> nat \<Rightarrow> daliasframetype_t list \<Rightarrow> pose_tables
       \<Rightarrow> (maliasframedesc_t list \<times> pose_tables) outcome" where
  "load_frames MAXALIASFRAMES namesize [] st = Returns ([], st)"
| "load_frames MAXALIASFRAMES namesize (ALIAS_SINGLE f # rest) st =
     (case Mod_LoadAliasFrame MAXALIASFRAMES namesize f frame_zero st of
        Fatal e \<Rightarrow> Fatal e
      | Undefined \<Rightarrow> Undefined
      | Returns (fr, st') \<Rightarrow>
          (case load_frames MAXALIASFRAMES namesize rest st' of
             Fatal e \<Rightarrow> Fatal e
           | Undefined \<Rightarrow> Undefined
           | Returns (frs, st'') \<Rightarrow> Returns (fr # frs, st'')))"
| "load_frames MAXALIASFRAMES namesize (ALIAS_GROUP g # rest) st =
     (case Mod_LoadAliasGroup MAXALIASFRAMES namesize g frame_zero st of
        Fatal e \<Rightarrow> Fatal e
      | Undefined \<Rightarrow> Undefined
      | Returns (fr, st') \<Rightarrow>
          (case load_frames MAXALIASFRAMES namesize rest st' of
             Fatal e \<Rightarrow> Fatal e
           | Undefined \<Rightarrow> Undefined
           | Returns (frs, st'') \<Rightarrow> Returns (fr # frs, st'')))"

text \<open>
  \<^verbatim>\<open>posenum = 0;\<close> then the loop; the value is the descriptors,
  \<^verbatim>\<open>pheader->numposes\<close> and the tables.
\<close>

definition load_alias_frames ::
    "nat \<Rightarrow> nat \<Rightarrow> daliasframetype_t list \<Rightarrow> pose_tables
       \<Rightarrow> (maliasframedesc_t list \<times> int \<times> pose_tables) outcome" where
  "load_alias_frames MAXALIASFRAMES namesize fs st =
     (case load_frames MAXALIASFRAMES namesize fs (st\<lparr>posenum := 0\<rparr>) of
        Fatal e \<Rightarrow> Fatal e
      | Undefined \<Rightarrow> Undefined
      | Returns (frs, st') \<Rightarrow> Returns (frs, int (posenum st'), st'))"

text \<open>The number of poses a frame of the file stands for.\<close>

fun frame_poses :: "daliasframetype_t \<Rightarrow> nat" where
  "frame_poses (ALIAS_SINGLE f) = 1"
| "frame_poses (ALIAS_GROUP g) = nat (daliasgroup_t.numframes g)"

text \<open>
  A single frame, and a group of three sub-frames shown an eighth of a second each; the
  same group with an interval that is not a number.
\<close>

definition single_example :: daliasframe_t where
  "single_example =
     \<lparr>daliasframe_t.bboxmin = [0, 0, 0, 0], daliasframe_t.bboxmax = [255, 255, 255, 0],
      daliasframe_t.name = ''stand1'', verts = []\<rparr>"

definition group_example :: daliasgroup_t where
  "group_example =
     \<lparr>daliasgroup_t.numframes = 3, daliasgroup_t.bboxmin = [0, 0, 0, 0],
      daliasgroup_t.bboxmax = [255, 255, 255, 0],
      intervals = (\<lambda>i. Fin (1 / 8)), frames = (\<lambda>i. single_example)\<rparr>"

definition nan_group_example :: daliasgroup_t where
  "nan_group_example = group_example\<lparr>intervals := (\<lambda>i. if i = 1 then NaN else Fin (1 / 8))\<rparr>"

definition pose_tables_init :: pose_tables where
  "pose_tables_init = \<lparr>posenum = 0, poseverts = (\<lambda>i. []), poseintervals = (\<lambda>i. Fin 0)\<rparr>"

subsection \<open>Point in leaf: \<^verbatim>\<open>Mod_PointInLeaf\<close>\<close>

text \<open>
  A \<^verbatim>\<open>vec3_t\<close> is three \<^verbatim>\<open>float\<close>s. \<^verbatim>\<open>DotProduct\<close> is a macro declared outside this
  file, \<^verbatim>\<open>(x[0]*y[0]+x[1]*y[1]+x[2]*y[2])\<close>; the sum associates to the left.
\<close>

type_synonym vec3_t = "float \<times> float \<times> float"

fun DotProduct :: "vec3_t \<Rightarrow> vec3_t \<Rightarrow> float" where
  "DotProduct (x0, x1, x2) (y0, y1, y2) = fadd (fadd (fmul x0 y0) (fmul x1 y1)) (fmul x2 y2)"

record mplane_t =
  normal :: vec3_t
  dist :: float

text \<open>
  A value of type \<^verbatim>\<open>mnode_t *\<close>: \<^verbatim>\<open>loadmodel->nodes + i\<close>, or a pointer
  \<^verbatim>\<open>loadmodel->leafs + i\<close> cast to it, as \<^verbatim>\<open>Mod_LoadNodes\<close> stores them in
  \<^verbatim>\<open>children\<close>.
\<close>

datatype mnode_ptr = Node nat | Leaf nat

record mnode_t =
  contents :: int
  plane :: mplane_t
  children :: "mnode_ptr \<times> mnode_ptr"

record mleaf_t =
  contents :: int

text \<open>
  The tree of a model: \<open>nodes\<close> is \<^verbatim>\<open>model->nodes\<close>, \<open>None\<close> the null pointer, else the
  array by index; \<open>leafs\<close> is the array \<^verbatim>\<open>model->leafs\<close>.
\<close>

record model_tree =
  nodes :: "(nat \<Rightarrow> mnode_t) option"
  leafs :: "nat \<Rightarrow> mleaf_t"

text \<open>
  The loop \<^verbatim>\<open>while (1)\<close>, from \<open>node\<close> on. It can run forever (on a cyclic tree): not
  returning is the value \<open>None\<close>. Going on from a leaf whose \<open>contents\<close> is not negative
  as if it were a node reads an \<^verbatim>\<open>mleaf_t\<close> as an \<^verbatim>\<open>mnode_t\<close>, which is \<open>Undefined\<close>.
  In \<^verbatim>\<open>d > 0\<close> the \<^verbatim>\<open>0\<close> is converted to \<^verbatim>\<open>float\<close>.
\<close>

partial_function (option) point_descend ::
    "(nat \<Rightarrow> mnode_t) \<Rightarrow> (nat \<Rightarrow> mleaf_t) \<Rightarrow> vec3_t \<Rightarrow> mnode_ptr \<Rightarrow> mnode_ptr outcome option" where
  "point_descend ns ls p node =
     (case node of
        Leaf i \<Rightarrow>
          (if mleaf_t.contents (ls i) < 0 then Some (Returns node) else Some Undefined)
      | Node i \<Rightarrow>
          (if mnode_t.contents (ns i) < 0 then Some (Returns node)
           else
             (let d = fsub (DotProduct p (normal (plane (ns i)))) (dist (plane (ns i)))
              in if flt (Fin 0) d then point_descend ns ls p (fst (children (ns i)))
                 else point_descend ns ls p (snd (children (ns i))))))"

definition Mod_PointInLeaf :: "vec3_t \<Rightarrow> model_tree option \<Rightarrow> mnode_ptr outcome option" where
  "Mod_PointInLeaf p model =
     (case model of
        None \<Rightarrow> Some (Fatal (Sys_Error ''Mod_PointInLeaf: bad model''))
      | Some m \<Rightarrow>
          (case nodes m of
             None \<Rightarrow> Some (Fatal (Sys_Error ''Mod_PointInLeaf: bad model''))
           | Some ns \<Rightarrow> point_descend ns (leafs m) p (Node 0)))"

text \<open>
  The descent in the words of the specification. The signed distance of a point from a
  plane is \<open>dot(point, normal) - dist\<close>, computed in \<^verbatim>\<open>float\<close>: three products, two sums
  and a difference, each rounded. From a tree element, the leaf found is the one reached
  by going to child 0 where the signed distance to the element's plane is strictly
  positive and to child 1 otherwise, until an element with negative \<open>contents\<close>.
\<close>

definition signed_distance :: "vec3_t \<Rightarrow> mplane_t \<Rightarrow> float" where
  "signed_distance p pl =
     fsub (fadd (fadd (fmul (fst p) (fst (normal pl))) (fmul (fst (snd p)) (fst (snd (normal pl)))))
                (fmul (snd (snd p)) (snd (snd (normal pl)))))
          (dist pl)"

fun contents_at :: "(nat \<Rightarrow> mnode_t) \<Rightarrow> (nat \<Rightarrow> mleaf_t) \<Rightarrow> mnode_ptr \<Rightarrow> int" where
  "contents_at ns ls (Node i) = mnode_t.contents (ns i)"
| "contents_at ns ls (Leaf i) = mleaf_t.contents (ls i)"

inductive locates ::
    "(nat \<Rightarrow> mnode_t) \<Rightarrow> (nat \<Rightarrow> mleaf_t) \<Rightarrow> vec3_t \<Rightarrow> mnode_ptr \<Rightarrow> mnode_ptr \<Rightarrow> bool"
    for ns ls p where
  at_leaf: "contents_at ns ls e < 0 \<Longrightarrow> locates ns ls p e e"
| to_child0: "\<not> mnode_t.contents (ns i) < 0 \<Longrightarrow>
          flt (Fin 0) (signed_distance p (plane (ns i))) \<Longrightarrow>
          locates ns ls p (fst (children (ns i))) l \<Longrightarrow> locates ns ls p (Node i) l"
| to_child1: "\<not> mnode_t.contents (ns i) < 0 \<Longrightarrow>
         \<not> flt (Fin 0) (signed_distance p (plane (ns i))) \<Longrightarrow>
         locates ns ls p (snd (children (ns i))) l \<Longrightarrow> locates ns ls p (Node i) l"

text \<open>
  A tree of one node and two leafs that splits on the plane \<open>x = 0\<close>: leaf 1 is child 0,
  leaf 2 is child 1. (Leaf 0 is the solid leaf outside the world.)
\<close>

definition split_x_tree :: model_tree where
  "split_x_tree =
     \<lparr>nodes = Some (\<lambda>i. \<lparr>mnode_t.contents = 0,
                          plane = \<lparr>normal = (Fin 1, Fin 0, Fin 0), dist = Fin 0\<rparr>,
                          children = (Leaf 1, Leaf 2)\<rparr>),
      leafs = (\<lambda>i. \<lparr>mleaf_t.contents = (if i = 0 then - 2 else - 1)\<rparr>)\<rparr>"

text \<open>
  A tree of two nodes and three leafs. The root splits on \<open>x = 0\<close>, with leaf 1 behind
  it; in front of it node 1 splits on the plane \<open>3 y + 4 z = 10\<close>, with leaf 2 in front
  and leaf 3 behind.
\<close>

definition two_level_tree :: model_tree where
  "two_level_tree =
     \<lparr>nodes = Some (\<lambda>i. if i = 0
                        then \<lparr>mnode_t.contents = 0,
                              plane = \<lparr>normal = (Fin 1, Fin 0, Fin 0), dist = Fin 0\<rparr>,
                              children = (Node 1, Leaf 1)\<rparr>
                        else \<lparr>mnode_t.contents = 0,
                              plane = \<lparr>normal = (Fin 0, Fin 3, Fin 4), dist = Fin 10\<rparr>,
                              children = (Leaf 2, Leaf 3)\<rparr>),
      leafs = (\<lambda>i. \<lparr>mleaf_t.contents = (if i = 0 then - 2 else - 1)\<rparr>)\<rparr>"

text \<open>
  A tree of one node whose plane is \<open>x + y = 16777216\<close>. The point
  \<open>(16777216, 1, 0)\<close> lies one unit in front of it, but \<open>16777216 + 1\<close> is no \<^verbatim>\<open>float\<close>
  and the sum is rounded to \<open>16777216\<close>.
\<close>

definition slanted_tree :: model_tree where
  "slanted_tree =
     \<lparr>nodes = Some (\<lambda>i. \<lparr>mnode_t.contents = 0,
                          plane = \<lparr>normal = (Fin 1, Fin 1, Fin 0), dist = Fin 16777216\<rparr>,
                          children = (Leaf 1, Leaf 2)\<rparr>),
      leafs = (\<lambda>i. \<lparr>mleaf_t.contents = (if i = 0 then - 2 else - 1)\<rparr>)\<rparr>"

subsection \<open>Textures\<close>

text \<open>
  The fields of \<^verbatim>\<open>texture_t\<close> that the loader's name tests and the animation
  sequencing use (the mip offsets, the pixels and the renderer's handle are left out).
  \<open>name\<close> is the array \<^verbatim>\<open>char name[16]\<close>; a shorter list stands for the array filled
  up with zero bytes. The two pointers to other textures are indices
  into \<^verbatim>\<open>loadmodel->textures\<close>, \<open>None\<close> the null pointer.
\<close>

record texture_t =
  name :: string
  width :: "32 word"
  height :: "32 word"
  anim_total :: int
  anim_min :: int
  anim_max :: int
  anim_next :: "nat option"
  alternate_anims :: "nat option"

subsection \<open>Texture animations: the sequencing loop of \<^verbatim>\<open>Mod_LoadTextures\<close>\<close>

text \<open>
  \<open>char_at nm k\<close> is \<^verbatim>\<open>name[k]\<close>, and \<open>name_suffix nm\<close> the C string \<^verbatim>\<open>name + 2\<close>: the
  characters from index 2 up to the first zero byte.
\<close>

definition char_at :: "string \<Rightarrow> nat \<Rightarrow> char" where
  "char_at nm k = (if k < length nm then nm ! k else CHR 0x00)"

definition name_suffix :: "string \<Rightarrow> string" where
  "name_suffix nm = takeWhile (\<lambda>c. c \<noteq> CHR 0x00) (drop 2 nm)"

text \<open>
  What the source makes of the character \<^verbatim>\<open>name[1]\<close>, for \<^verbatim>\<open>tx\<close> and for \<^verbatim>\<open>tx2\<close>
  alike: \<^verbatim>\<open>if (num >= 'a' && num <= 'z') num -= 'a' - 'A';\<close> then a digit is a frame
  of the primary sequence, a letter from \<open>A\<close> to \<open>J\<close> a frame of the alternate sequence,
  and anything else is the error "Bad animating texture".
\<close>

datatype anim_slot = Primary nat | Alternate nat | Bad_slot

definition frame_slot :: "string \<Rightarrow> anim_slot" where
  "frame_slot nm =
     (let num = (of_char (char_at nm 1) :: nat);
          num = (if 97 \<le> num \<and> num \<le> 122 then num - 32 else num)
      in if 48 \<le> num \<and> num \<le> 57 then Primary (num - 48)
         else if 65 \<le> num \<and> num \<le> 74 then Alternate (num - 65)
         else Bad_slot)"

text \<open>
  The tables \<^verbatim>\<open>anims[10]\<close> and \<^verbatim>\<open>altanims[10]\<close> of pointers to textures (indices into
  \<^verbatim>\<open>loadmodel->textures\<close>) with the counters \<^verbatim>\<open>max\<close> and \<^verbatim>\<open>altmax\<close>.
\<close>

record anim_tables =
  anims :: "nat option list"
  altanims :: "nat option list"
  max' :: nat
  altmax :: nat

definition ANIM_CYCLE :: int where
  "ANIM_CYCLE = 2"


text \<open>
  The body of the loop over \<open>j\<close> for the texture \<^verbatim>\<open>tx2\<close> at index \<open>j\<close>; \<open>nm\<close> is the
  name of \<^verbatim>\<open>tx\<close>.
\<close>

definition add_frame :: "string \<Rightarrow> texture_t option \<Rightarrow> nat \<Rightarrow> anim_tables \<Rightarrow> fault + anim_tables" where
  "add_frame nm tx2 j tabs =
     (case tx2 of
        None \<Rightarrow> Inr tabs
      | Some t2 \<Rightarrow>
          if char_at (texture_t.name t2) 0 \<noteq> CHR ''+'' then Inr tabs
          else if name_suffix (texture_t.name t2) \<noteq> name_suffix nm then Inr tabs
          else
            (case frame_slot (texture_t.name t2) of
               Primary num \<Rightarrow>
                 Inr (tabs\<lparr>anims := (anims tabs)[num := Some j],
                           max' := (if num + 1 > max' tabs then num + 1 else max' tabs)\<rparr>)
             | Alternate num \<Rightarrow>
                 Inr (tabs\<lparr>altanims := (altanims tabs)[num := Some j],
                           altmax := (if num + 1 > altmax tabs then num + 1 else altmax tabs)\<rparr>)
             | Bad_slot \<Rightarrow> Inl (Sys_Error ''Bad animating texture'')))"

text \<open>The loop \<^verbatim>\<open>for (j = i + 1; j < m->nummiptex; j++)\<close>, over the indices left.\<close>

fun collect_frames ::
    "texture_t option list \<Rightarrow> string \<Rightarrow> nat list \<Rightarrow> anim_tables \<Rightarrow> fault + anim_tables" where
  "collect_frames txs nm [] tabs = Inr tabs"
| "collect_frames txs nm (j # js) tabs =
     (case add_frame nm (txs ! j) j tabs of
        Inl e \<Rightarrow> Inl e
      | Inr tabs' \<Rightarrow> collect_frames txs nm js tabs')"

text \<open>
  A write through the pointer \<^verbatim>\<open>tx2\<close>, to the texture at index \<open>t\<close>.
\<close>

definition update_texture ::
    "nat \<Rightarrow> (texture_t \<Rightarrow> texture_t) \<Rightarrow> texture_t option list \<Rightarrow> texture_t option list" where
  "update_texture t f txs = txs[t := map_option f (txs ! t)]"





text \<open>
  The first loop of \<^verbatim>\<open>Mod_LoadTextures\<close>, for one entry of the texture lump: \<open>None\<close> is
  an entry with \<^verbatim>\<open>dataofs == -1\<close>, which leaves the null pointer in
  \<^verbatim>\<open>loadmodel->textures\<close>. The texture is fresh storage from \<^verbatim>\<open>Hunk_AllocName\<close>,
  all zero, into which name, width and height are copied.
\<close>

record miptex_t =
  name :: string
  width :: "32 word"
  height :: "32 word"





text \<open>
  Notions for stating what the sequencing does. The key of a texture name: for a name
  that begins with \<open>+\<close>, its frame and its suffix. The keys of a whole lump never change
  while it is loaded.
\<close>

definition name_key :: "string \<Rightarrow> (anim_slot \<times> string) option" where
  "name_key nm =
     (if char_at nm 0 = CHR ''+'' then Some (frame_slot nm, name_suffix nm) else None)"



text \<open>
  The length of the primary sequence with suffix \<open>S\<close>: one more than the greatest frame
  index among the keys, and 0 when there is none.
\<close>

fun primary_frame :: "string \<Rightarrow> (anim_slot \<times> string) option \<Rightarrow> nat option" where
  "primary_frame S (Some (Primary k, S')) = (if S' = S then Some k else None)"
| "primary_frame S _ = None"

definition seq_length :: "(anim_slot \<times> string) option list \<Rightarrow> string \<Rightarrow> nat" where
  "seq_length K S = Max (set (0 # map Suc (List.map_filter (primary_frame S) K)))"


text \<open>
  Both linking loops are one loop over a table \<open>tab\<close> with a write \<open>F j\<close> for frame \<open>j\<close>.
\<close>

fun link_generic ::
    "nat option list \<Rightarrow> (nat \<Rightarrow> texture_t \<Rightarrow> texture_t) \<Rightarrow> nat list \<Rightarrow> texture_t option list
       \<Rightarrow> fault + texture_t option list" where
  "link_generic tab F [] txs = Inr txs"
| "link_generic tab F (j # js) txs =
     (case tab ! j of
        None \<Rightarrow> Inl (Sys_Error ''Missing frame'')
      | Some t \<Rightarrow> link_generic tab F js (update_texture t (F j) txs))"

definition primary_write :: "anim_tables \<Rightarrow> nat \<Rightarrow> texture_t \<Rightarrow> texture_t" where
  "primary_write tabs j tx2 =
     tx2\<lparr>anim_total := int (max' tabs) * ANIM_CYCLE,
         anim_min := int j * ANIM_CYCLE,
         anim_max := (int j + 1) * ANIM_CYCLE,
         anim_next := anims tabs ! ((j + 1) mod max' tabs),
         alternate_anims := (if altmax tabs \<noteq> 0 then altanims tabs ! 0 else alternate_anims tx2)\<rparr>"

definition alternate_write :: "anim_tables \<Rightarrow> nat \<Rightarrow> texture_t \<Rightarrow> texture_t" where
  "alternate_write tabs j tx2 =
     tx2\<lparr>anim_total := int (altmax tabs) * ANIM_CYCLE,
         anim_min := int j * ANIM_CYCLE,
         anim_max := (int j + 1) * ANIM_CYCLE,
         anim_next := altanims tabs ! ((j + 1) mod altmax tabs),
         alternate_anims := (if max' tabs \<noteq> 0 then anims tabs ! 0 else alternate_anims tx2)\<rparr>"

text \<open>
  What holds of the tables while the frames of the textures in \<open>M\<close> are collected, for
  the keys \<open>K\<close> and the suffix \<open>S\<close>: every entry is a texture of \<open>M\<close> with that frame,
  every frame of a texture of \<open>M\<close> has an entry and lies below the counter, the
  counter is one more than a frame that occurs, and no texture of \<open>M\<close> has a bad frame
  character.
\<close>

definition tables_ok ::
    "(anim_slot \<times> string) option list \<Rightarrow> string \<Rightarrow> nat set \<Rightarrow> anim_tables \<Rightarrow> bool" where
  "tables_ok K S M tabs =
     (length (anims tabs) = 10 \<and> length (altanims tabs) = 10
      \<and> max' tabs \<le> 10 \<and> altmax tabs \<le> 10
      \<and> (\<forall>k t. k < 10 \<and> anims tabs ! k = Some t \<longrightarrow> t \<in> M \<and> K ! t = Some (Primary k, S))
      \<and> (\<forall>t k. t \<in> M \<and> K ! t = Some (Primary k, S) \<longrightarrow> k < max' tabs \<and> anims tabs ! k \<noteq> None)
      \<and> (0 < max' tabs \<longrightarrow> (\<exists>t \<in> M. K ! t = Some (Primary (max' tabs - 1), S)))
      \<and> (\<forall>k t. k < 10 \<and> altanims tabs ! k = Some t \<longrightarrow> t \<in> M \<and> K ! t = Some (Alternate k, S))
      \<and> (\<forall>t k. t \<in> M \<and> K ! t = Some (Alternate k, S) \<longrightarrow> k < altmax tabs \<and> altanims tabs ! k \<noteq> None)
      \<and> (0 < altmax tabs \<longrightarrow> (\<exists>t \<in> M. K ! t = Some (Alternate (altmax tabs - 1), S)))
      \<and> (\<forall>t. t \<in> M \<longrightarrow> K ! t \<noteq> Some (Bad_slot, S)))"


definition linked_ok :: "(anim_slot \<times> string) option list \<Rightarrow> nat \<Rightarrow> texture_t option \<Rightarrow> bool" where
  "linked_ok K t x =
     (\<exists>tx. x = Some tx \<and> anim_next tx \<noteq> None
        \<and> (\<forall>k S. K ! t = Some (Primary k, S) \<longrightarrow>
              anim_total tx = int (seq_length K S) * ANIM_CYCLE
              \<and> anim_min tx = int k * ANIM_CYCLE
              \<and> anim_max tx = (int k + 1) * ANIM_CYCLE
              \<and> (\<exists>u < length K. anim_next tx = Some u
                    \<and> K ! u = Some (Primary ((k + 1) mod seq_length K S), S))))"

section \<open>Properties\<close>

subsection \<open>Floating point\<close>

lemma two_powi_pos: "0 < (2::real) powi k"
  by simp

lemma two_powi_add1: "(2::real) powi (k + 1) = 2 * 2 powi k"
  by (simp add: power_int_add)

lemma two_powi_sub1: "(2::real) powi (k - 1) = 2 powi k / 2"
  by (simp add: power_int_diff)

lemma expo_up_bounds: "e \<le> 127 \<Longrightarrow> e \<le> expo_up y e \<and> expo_up y e \<le> 127"
proof (induction y e rule: expo_up.induct)
  case (1 y e)
  show ?case
  proof (cases "2 \<le> y \<and> e < 127")
    case True
    with 1 show ?thesis by (subst (1 2) expo_up.simps) auto
  next
    case False
    with 1 show ?thesis by (subst (1 2) expo_up.simps) auto
  qed
qed

lemma expo_down_bounds: "- 126 \<le> e \<Longrightarrow> - 126 \<le> expo_down y e \<and> expo_down y e \<le> e"
proof (induction y e rule: expo_down.induct)
  case (1 y e)
  show ?case
  proof (cases "y < 1 \<and> - 126 < e")
    case True
    with 1 show ?thesis by (subst (1 2) expo_down.simps) auto
  next
    case False
    with 1 show ?thesis by (subst (1 2) expo_down.simps) auto
  qed
qed

lemma expo_bounds: "- 126 \<le> expo y \<and> expo y \<le> 127"
  using expo_up_bounds [of 0 y] expo_down_bounds [of 0 y] by (auto simp: expo_def)

lemma expo_up_range:
  "1 \<le> y \<Longrightarrow> e \<le> 127 \<Longrightarrow>
     2 powi (expo_up y e - e) \<le> y \<and> (expo_up y e < 127 \<longrightarrow> y < 2 powi (expo_up y e - e + 1))"
proof (induction y e rule: expo_up.induct)
  case (1 y e)
  show ?case
  proof (cases "2 \<le> y \<and> e < 127")
    case True
    then have eq: "expo_up y e = expo_up (y / 2) (e + 1)"
      by (subst expo_up.simps) simp
    from True 1 have ih: "2 powi (expo_up (y / 2) (e + 1) - (e + 1)) \<le> y / 2
        \<and> (expo_up (y / 2) (e + 1) < 127 \<longrightarrow> y / 2 < 2 powi (expo_up (y / 2) (e + 1) - (e + 1) + 1))"
      by simp
    have a: "expo_up (y / 2) (e + 1) - (e + 1) = (expo_up (y / 2) (e + 1) - e) - 1"
      by simp
    from ih show ?thesis
      unfolding eq a two_powi_sub1 by (simp add: two_powi_add1 mult.commute)
  next
    case False
    then have eq: "expo_up y e = e"
      by (subst expo_up.simps) auto
    from False 1 show ?thesis unfolding eq by auto
  qed
qed

lemma expo_down_range:
  "y < 2 \<Longrightarrow> - 126 \<le> e \<Longrightarrow>
     y < 2 powi (expo_down y e - e + 1) \<and> (- 126 < expo_down y e \<longrightarrow> 2 powi (expo_down y e - e) \<le> y)"
proof (induction y e rule: expo_down.induct)
  case (1 y e)
  show ?case
  proof (cases "y < 1 \<and> - 126 < e")
    case True
    then have eq: "expo_down y e = expo_down (2 * y) (e - 1)"
      by (subst expo_down.simps) simp
    from True 1 have ih: "2 * y < 2 powi (expo_down (2 * y) (e - 1) - (e - 1) + 1)
        \<and> (- 126 < expo_down (2 * y) (e - 1) \<longrightarrow> 2 powi (expo_down (2 * y) (e - 1) - (e - 1)) \<le> 2 * y)"
      by simp
    have a: "expo_down (2 * y) (e - 1) - (e - 1) = (expo_down (2 * y) (e - 1) - e) + 1"
      by simp
    from ih show ?thesis
      unfolding eq a two_powi_add1 by simp
  next
    case False
    then have eq: "expo_down y e = e"
      by (subst expo_down.simps) auto
    from False 1 show ?thesis unfolding eq by auto
  qed
qed

lemma expo_lower: "- 126 < expo y \<Longrightarrow> 2 powi (expo y) \<le> y"
  using expo_up_range [of y 0] expo_down_range [of y 0] by (auto simp: expo_def split: if_splits)

lemma expo_upper: "expo y < 127 \<Longrightarrow> y < 2 powi (expo y + 1)"
  using expo_up_range [of y 0] expo_down_range [of y 0] by (auto simp: expo_def split: if_splits)

lemma expo_unique:
  assumes "- 126 \<le> k" "k \<le> 127"
    and lo: "- 126 < k \<Longrightarrow> 2 powi k \<le> y"
    and hi: "k < 127 \<Longrightarrow> y < 2 powi (k + 1)"
  shows "expo y = k"
proof (rule ccontr)
  assume ne: "expo y \<noteq> k"
  show False
  proof (cases "expo y < k")
    case True
    with assms expo_bounds [of y] have "expo y < 127" "- 126 < k" by auto
    then have "y < 2 powi (expo y + 1)" "2 powi k \<le> y"
      using expo_upper lo by auto
    moreover have "(2::real) powi (expo y + 1) \<le> 2 powi k"
      using True by (intro power_int_increasing) auto
    ultimately show False by simp
  next
    case False
    with ne have gt: "k < expo y" by simp
    with assms expo_bounds [of y] have "- 126 < expo y" "k < 127" by auto
    then have "2 powi (expo y) \<le> y" "y < 2 powi (k + 1)"
      using expo_lower hi by auto
    moreover have "(2::real) powi (k + 1) \<le> 2 powi (expo y)"
      using gt by (intro power_int_increasing) auto
    ultimately show False by simp
  qed
qed

lemma expo_div16:
  assumes "2 powi (- 122) \<le> y" and top: "y < 2 ^ 128"
  shows "expo (y / 16) = expo y - 4"
proof -
  have b: "- 126 \<le> expo y" "expo y \<le> 127"
    using expo_bounds by auto
  have ge: "- 122 \<le> expo y"
  proof (rule ccontr)
    assume "\<not> - 122 \<le> expo y"
    then have lt: "expo y < - 122" by simp
    then have "y < 2 powi (expo y + 1)"
      using expo_upper by simp
    moreover have "(2::real) powi (expo y + 1) \<le> 2 powi (- 122)"
      using lt by (intro power_int_increasing) auto
    ultimately show False using assms by simp
  qed
  have sixteen: "(2::real) powi (k - 4) = 2 powi k / 16" for k
    by (simp add: power_int_diff)
  show ?thesis
  proof (cases "expo y < 127")
    case True
    show ?thesis
    proof (rule expo_unique)
      show "- 126 \<le> expo y - 4" "expo y - 4 \<le> 127" using ge b by auto
      show "2 powi (expo y - 4) \<le> y / 16"
        using expo_lower [of y] ge by (simp add: sixteen)
      have "expo y - 4 + 1 = (expo y + 1) - 4" by simp
      then show "y / 16 < 2 powi (expo y - 4 + 1)"
        using expo_upper [OF True] by (simp only: sixteen)
    qed
  next
    case False
    with b have e: "expo y = 127" by simp
    show ?thesis
      unfolding e
    proof (rule expo_unique)
      show "- 126 \<le> (127::int) - 4" "(127::int) - 4 \<le> 127" by auto
      show "2 powi (127 - 4) \<le> y / 16"
        using expo_lower [of y] e by (simp add: sixteen)
      show "y / 16 < 2 powi (127 - 4 + 1)"
        using top by simp
    qed
  qed
qed

lemma expo_zero: "expo 0 = - 126"
  by (rule expo_unique) auto

lemma round_even_of_int: "round_even (of_int n) = n"
  by (simp add: round_even_def)

lemma round32_zero: "round32 0 = Fin 0"
  by (simp add: round32_def round_even_def)

lemma if_float_eq_Fin:
  "((if a then PInf else if b then NInf else Fin r) = Fin v) = (\<not> a \<and> \<not> b \<and> r = v)"
  by auto

lemma round32_eq_Fin:
  "round32 x = Fin v \<longleftrightarrow>
     \<not> 2 ^ 128 \<le> real_of_int (round_even (x / 2 powi (expo \<bar>x\<bar> - 23))) * 2 powi (expo \<bar>x\<bar> - 23)
     \<and> \<not> real_of_int (round_even (x / 2 powi (expo \<bar>x\<bar> - 23))) * 2 powi (expo \<bar>x\<bar> - 23) \<le> - (2 ^ 128)
     \<and> real_of_int (round_even (x / 2 powi (expo \<bar>x\<bar> - 23))) * 2 powi (expo \<bar>x\<bar> - 23) = v"
  unfolding round32_def Let_def by (rule if_float_eq_Fin)

lemma float_value_bound:
  assumes "float_value x"
  shows "\<bar>x\<bar> < 2 ^ 128"
proof -
  define r where "r = real_of_int (round_even (x / 2 powi (expo \<bar>x\<bar> - 23))) * 2 powi (expo \<bar>x\<bar> - 23)"
  from assms have "\<not> 2 ^ 128 \<le> r \<and> \<not> r \<le> - (2 ^ 128) \<and> r = x"
    unfolding float_value_def round32_eq_Fin r_def .
  then show ?thesis by auto
qed

lemma fdiv16_exact:
  assumes fv: "float_value x" and big: "x = 0 \<or> 2 powi (- 122) \<le> \<bar>x\<bar>"
  shows "round32 (x / 16) = Fin (x / 16)"
proof (cases "x = 0")
  case True
  then show ?thesis by (simp add: round32_zero)
next
  case False
  with big have lo: "2 powi (- 122) \<le> \<bar>x\<bar>" by simp
  have top: "\<bar>x\<bar> < 2 ^ 128" using fv by (rule float_value_bound)
  define q where "q = (2::real) powi (expo \<bar>x\<bar> - 23)"
  define r where "r = real_of_int (round_even (x / q)) * q"
  from fv have "\<not> 2 ^ 128 \<le> r \<and> \<not> r \<le> - (2 ^ 128) \<and> r = x"
    unfolding float_value_def round32_eq_Fin r_def q_def .
  then have rx: "r = x" by simp
  have e: "expo \<bar>x / 16\<bar> = expo \<bar>x\<bar> - 4"
    using expo_div16 [OF lo top] by simp
  have q': "2 powi (expo \<bar>x / 16\<bar> - 23) = q / 16"
    unfolding e q_def by (simp add: power_int_diff)
  have quot: "x / 16 / (q / 16) = x / q"
    by simp
  have val: "real_of_int (round_even (x / 16 / (q / 16))) * (q / 16) = x / 16"
    unfolding quot using rx by (simp add: r_def)
  from top have "\<not> 2 ^ 128 \<le> x / 16" "\<not> x / 16 \<le> - (2 ^ 128)"
    by auto
  then show ?thesis
    unfolding round32_eq_Fin q' val by simp
qed

text \<open>The rules that compute with concrete \<^verbatim>\<open>float\<close>s.\<close>

lemmas float_eval =
  round32_def expo_def expo_up.simps expo_down.simps round_even_def fsub_def float_value_def Let_def

subsection \<open>Visibility decompression\<close>














subsection \<open>The model registry\<close>


lemma find_slot_end: "\<not> i < mod_numknown r \<Longrightarrow> find_slot r nm i = i"
  by (subst find_slot.simps) simp

lemma find_slot_hit: "i < mod_numknown r \<Longrightarrow> model_t.name (mod_known r i) = nm \<Longrightarrow> find_slot r nm i = i"
  by (subst find_slot.simps) simp

lemma find_slot_miss:
  "i < mod_numknown r \<Longrightarrow> model_t.name (mod_known r i) \<noteq> nm \<Longrightarrow> find_slot r nm i = find_slot r nm (Suc i)"
  by (subst find_slot.simps) simp

lemma find_slot_le: "i \<le> mod_numknown r \<Longrightarrow> find_slot r nm i \<le> mod_numknown r"
proof (induction r nm i rule: find_slot.induct)
  case (1 r nm i)
  show ?case
  proof (cases "i < mod_numknown r")
    case False
    with "1.prems" show ?thesis by (simp add: find_slot_end)
  next
    case True
    then show ?thesis using "1.IH" "1.prems"
      by (cases "model_t.name (mod_known r i) = nm") (simp_all add: find_slot_hit find_slot_miss)
  qed
qed

lemma find_slot_found:
  "find_slot r nm i < mod_numknown r \<Longrightarrow> model_t.name (mod_known r (find_slot r nm i)) = nm"
proof (induction r nm i rule: find_slot.induct)
  case (1 r nm i)
  show ?case
  proof (cases "i < mod_numknown r")
    case False
    with "1.prems" show ?thesis by (simp add: find_slot_end)
  next
    case True
    show ?thesis
    proof (cases "model_t.name (mod_known r i) = nm")
      case eq: True
      with True show ?thesis by (simp add: find_slot_hit)
    next
      case ne: False
      with True "1.prems" "1.IH" show ?thesis by (simp add: find_slot_miss)
    qed
  qed
qed

lemma find_slot_absent:
  "i \<le> mod_numknown r \<Longrightarrow>
     (find_slot r nm i = mod_numknown r) =
       (\<forall>j. i \<le> j \<and> j < mod_numknown r \<longrightarrow> model_t.name (mod_known r j) \<noteq> nm)"
proof (induction r nm i rule: find_slot.induct)
  case (1 r nm i)
  show ?case
  proof (cases "i < mod_numknown r")
    case False
    with "1.prems" show ?thesis by (auto simp: find_slot_end)
  next
    case True
    show ?thesis
    proof (cases "model_t.name (mod_known r i) = nm")
      case eq: True
      with True show ?thesis by (auto simp: find_slot_hit)
    next
      case ne: False
      have "(\<forall>j. i \<le> j \<and> j < mod_numknown r \<longrightarrow> model_t.name (mod_known r j) \<noteq> nm)
          = (\<forall>j. Suc i \<le> j \<and> j < mod_numknown r \<longrightarrow> model_t.name (mod_known r j) \<noteq> nm)"
        using ne by (metis Suc_leI le_neq_implies_less Suc_leD)
      with "1.IH" [OF True ne] True ne show ?thesis by (simp add: find_slot_miss)
    qed
  qed
qed

lemma find_slot_unknown:
  "(find_slot r nm 0 = mod_numknown r) = (\<forall>j < mod_numknown r. model_t.name (mod_known r j) \<noteq> nm)"
  using find_slot_absent [of 0 r nm] by simp

lemma find_slot_known:
  "j < mod_numknown r \<Longrightarrow> model_t.name (mod_known r j) = nm \<Longrightarrow> find_slot r nm 0 < mod_numknown r"
proof -
  assume "j < mod_numknown r" "model_t.name (mod_known r j) = nm"
  then have "find_slot r nm 0 \<noteq> mod_numknown r" by (auto simp: find_slot_unknown)
  moreover have "find_slot r nm 0 \<le> mod_numknown r" by (rule find_slot_le) simp
  ultimately show ?thesis by simp
qed

text \<open>
  C10. A touch that returns leaves every slot's type and cache handle as they were,
  leaves every known model (a slot below the counter) unchanged, and never clears a
  needload flag: nothing is loaded. For a name that no known slot carries, the touch
  claims the slot at the counter (the name cut to \<open>MAX_QPATH - 1\<close> characters, needload
  set) and increments the counter; it is fatal when the table is full, and an empty name
  is fatal. For a name already known the table and the counter stay as they are.
\<close>

theorem Mod_TouchModel_frame:
  "(\<forall>r'. Mod_TouchModel MAX_QPATH nm r = Inr r' \<longrightarrow>
       (\<forall>i. type (mod_known r' i) = type (mod_known r i)
            \<and> cache_data (mod_known r' i) = cache_data (mod_known r i))
       \<and> (\<forall>i. i < mod_numknown r \<longrightarrow> mod_known r' i = mod_known r i)
       \<and> (\<forall>i. needload (mod_known r i) \<longrightarrow> needload (mod_known r' i)))
   \<and> ((\<forall>j < mod_numknown r. model_t.name (mod_known r j) \<noteq> nm) \<longrightarrow>
        Mod_TouchModel MAX_QPATH nm r =
          (if nm = [] then Inl (Sys_Error ''Mod_FindName: NULL name'')
           else if mod_numknown r = MAX_MOD_KNOWN then Inl (Sys_Error ''mod_numknown == MAX_MOD_KNOWN'')
           else Inr (r\<lparr>mod_known := (mod_known r)
                          (mod_numknown r := (mod_known r (mod_numknown r))
                             \<lparr>model_t.name := take (MAX_QPATH - 1) nm, needload := True\<rparr>),
                       mod_numknown := mod_numknown r + 1\<rparr>)))
   \<and> (nm = [] \<longrightarrow> Mod_TouchModel MAX_QPATH nm r = Inl (Sys_Error ''Mod_FindName: NULL name''))
   \<and> (nm \<noteq> [] \<and> (\<exists>j < mod_numknown r. model_t.name (mod_known r j) = nm) \<longrightarrow>
        (\<exists>r'. Mod_TouchModel MAX_QPATH nm r = Inr r'
              \<and> mod_known r' = mod_known r \<and> mod_numknown r' = mod_numknown r))"
proof (intro conjI allI impI)
  fix r' i
  assume t: "Mod_TouchModel MAX_QPATH nm r = Inr r'"
  then have k: "mod_known r' = mod_known r \<or>
      mod_known r' = (mod_known r)(mod_numknown r := (mod_known r (mod_numknown r))
                             \<lparr>model_t.name := take (MAX_QPATH - 1) nm, needload := True\<rparr>)"
    by (auto simp: Mod_TouchModel_def Mod_FindName_def Let_def split: if_splits)
  from k show "type (mod_known r' i) = type (mod_known r i)" by auto
  from k show "cache_data (mod_known r' i) = cache_data (mod_known r i)" by auto
  from k show "needload (mod_known r' i)" if "needload (mod_known r i)" using that by auto
  from k show "mod_known r' i = mod_known r i" if "i < mod_numknown r" using that by auto
next
  assume "\<forall>j < mod_numknown r. model_t.name (mod_known r j) \<noteq> nm"
  then have "find_slot r nm 0 = mod_numknown r" by (simp add: find_slot_unknown)
  then show "Mod_TouchModel MAX_QPATH nm r =
          (if nm = [] then Inl (Sys_Error ''Mod_FindName: NULL name'')
           else if mod_numknown r = MAX_MOD_KNOWN then Inl (Sys_Error ''mod_numknown == MAX_MOD_KNOWN'')
           else Inr (r\<lparr>mod_known := (mod_known r)
                          (mod_numknown r := (mod_known r (mod_numknown r))
                             \<lparr>model_t.name := take (MAX_QPATH - 1) nm, needload := True\<rparr>),
                       mod_numknown := mod_numknown r + 1\<rparr>))"
    by (simp add: Mod_TouchModel_def Mod_FindName_def Let_def)
next
  assume "nm = []"
  then show "Mod_TouchModel MAX_QPATH nm r = Inl (Sys_Error ''Mod_FindName: NULL name'')"
    by (simp add: Mod_TouchModel_def Mod_FindName_def)
next
  assume "nm \<noteq> [] \<and> (\<exists>j < mod_numknown r. model_t.name (mod_known r j) = nm)"
  then obtain j where "nm \<noteq> []" and j: "j < mod_numknown r" "model_t.name (mod_known r j) = nm"
    by blast
  from find_slot_known [OF j] have "find_slot r nm 0 \<noteq> mod_numknown r" by simp
  with \<open>nm \<noteq> []\<close>
  show "\<exists>r'. Mod_TouchModel MAX_QPATH nm r = Inr r'
              \<and> mod_known r' = mod_known r \<and> mod_numknown r' = mod_numknown r"
    by (simp add: Mod_TouchModel_def Mod_FindName_def Let_def)
qed

theorem Mod_TouchModel_frame_witness:
  "Mod_TouchModel 64 ''progs/player.mdl'' registry_init =
     Inr (registry_init\<lparr>mod_known := (mod_known registry_init)
            (0 := \<lparr>model_t.name = ''progs/player.mdl'', needload = True, type = mod_brush,
                   cache_data = None\<rparr>),
          mod_numknown := 1\<rparr>)
   \<and> Mod_TouchModel 64 [] registry_init = Inl (Sys_Error ''Mod_FindName: NULL name'')
   \<and> Mod_TouchModel 64 ''progs/player.mdl''
         (registry_init\<lparr>mod_known := (mod_known registry_init)
            (0 := \<lparr>model_t.name = ''progs/player.mdl'', needload = True, type = mod_brush,
                   cache_data = None\<rparr>),
          mod_numknown := 1\<rparr>) =
       Inr (registry_init\<lparr>mod_known := (mod_known registry_init)
            (0 := \<lparr>model_t.name = ''progs/player.mdl'', needload = True, type = mod_brush,
                   cache_data = None\<rparr>),
          mod_numknown := 1\<rparr>)"
proof -
  let ?nm = "''progs/player.mdl''"
  let ?r1 = "registry_init\<lparr>mod_known := (mod_known registry_init)
            (0 := \<lparr>model_t.name = ?nm, needload = True, type = mod_brush, cache_data = None\<rparr>),
          mod_numknown := 1\<rparr>"
  have unknown: "\<forall>j < mod_numknown registry_init. model_t.name (mod_known registry_init j) \<noteq> ?nm"
    by (simp add: registry_init_def)
  have first: "Mod_TouchModel 64 ?nm registry_init = Inr ?r1"
    using Mod_TouchModel_frame [of 64 ?nm registry_init] unknown
    by (simp add: registry_init_def MAX_MOD_KNOWN_def)
  have empty: "Mod_TouchModel 64 [] registry_init = Inl (Sys_Error ''Mod_FindName: NULL name'')"
    using Mod_TouchModel_frame [of 64 "[]" registry_init] by simp
  have known: "?nm \<noteq> [] \<and> (\<exists>j < mod_numknown ?r1. model_t.name (mod_known ?r1 j) = ?nm)"
    by simp
  from Mod_TouchModel_frame [of 64 ?nm ?r1] known
  obtain r' where r': "Mod_TouchModel 64 ?nm ?r1 = Inr r'" "mod_known r' = mod_known ?r1"
      "mod_numknown r' = mod_numknown ?r1"
    by blast
  have "Mod_TouchModel 64 ?nm ?r1 = Inr ?r1"
    by (simp add: Mod_TouchModel_def Mod_FindName_def find_slot_hit)
  with first empty show ?thesis by simp
qed

subsection \<open>The lump table check\<close>

lemma overlap_loop_Inr:
  "(overlap_loop b1 e1 ls = Inr ()) =
     (\<forall>l \<in> set ls. \<not> ((b1 <s fileofs l \<and> fileofs l <s e1)
                      \<or> (fileofs l <s b1 \<and> b1 <s fileofs l + filelen l)))"
  by (induction ls) (simp_all add: Let_def)

lemma extents_loop_Inr:
  "(extents_loop size' lumps ls = Inr ()) =
     (\<forall>l \<in> set ls.
        \<not> (fileofs l + filelen l <s fileofs l \<or> size' < scast (fileofs l + filelen l)
           \<or> fileofs l <s 0 \<or> fileofs l + filelen l <s 0)
        \<and> overlap_loop (fileofs l) (fileofs l + filelen l) lumps = Inr ())"
  by (induction ls) (auto simp: Let_def split: sum.splits)

text \<open>
  What the check accepts: every lump passes the four extent tests, and no lump starts
  strictly inside another one. Two lumps that start at the same offset are never
  compared further.
\<close>

lemma check_lump_extents_Inr:
  "(check_lump_extents size' lumps = Inr ()) =
     (\<forall>l \<in> set lumps.
        \<not> (fileofs l + filelen l <s fileofs l \<or> size' < scast (fileofs l + filelen l)
           \<or> fileofs l <s 0 \<or> fileofs l + filelen l <s 0)
        \<and> (\<forall>l2 \<in> set lumps. \<not> (fileofs l <s fileofs l2 \<and> fileofs l2 <s fileofs l + filelen l)))"
  unfolding check_lump_extents_def extents_loop_Inr overlap_loop_Inr by blast


subsection \<open>The alias header checks\<close>

text \<open>What the checks accept: the triangle count is only tested from below.\<close>

lemma alias_header_checks_Inr:
  "(alias_header_checks L h = Inr ()) =
     (version h = ALIAS_VERSION L \<and> skinheight h \<le> MAX_LBM_HEIGHT L
      \<and> 0 < numverts h \<and> numverts h \<le> MAXALIASVERTS L
      \<and> 0 < numtris h \<and> 1 \<le> mdl_t.numframes h)"
  by (auto simp: alias_header_checks_def)

text \<open>
  C8. The claim holds that a triangle count above its capacity limit fails the load.
  With limits 6, 480, 2048 and 2048, a header whose triangle count is 2049 passes every
  check, and the loop that fills the static array \<^verbatim>\<open>triangles\<close> then writes index 2048.
\<close>

theorem alias_header_checks_numtris_unbounded:
  "alias_header_checks
       \<lparr>ALIAS_VERSION = 6, MAX_LBM_HEIGHT = 480, MAXALIASVERTS = 2048, MAXALIASTRIS = 2048\<rparr>
       \<lparr>version = 6, numskins = 1, skinwidth = 8, skinheight = 8, numverts = 3,
        numtris = 2049, numframes = 1\<rparr> = Inr ()
   \<and> 2048 \<in> set (triangles_written
       \<lparr>version = 6, numskins = 1, skinwidth = 8, skinheight = 8, numverts = 3,
        numtris = 2049, numframes = 1\<rparr>)"
  by (simp add: alias_header_checks_def triangles_written_def)

subsection \<open>Skin groups\<close>

lemma nat_and_3: "(j::nat) AND 3 = j mod 4"
proof -
  have "(3::nat) = mask 2" by (simp add: mask_eq_exp_minus_1)
  then have "j AND 3 = take_bit 2 j" by (simp add: take_bit_eq_mask)
  then show ?thesis by (simp add: take_bit_eq_mod)
qed

lemma skin_upload_loop_stop:
  "\<not> int j < groupskins \<Longrightarrow> skin_upload_loop up groupskins j row = (j, row)"
  by (subst skin_upload_loop.simps) simp

lemma skin_upload_loop_step:
  "int j < groupskins \<Longrightarrow>
     skin_upload_loop up groupskins j row =
       skin_upload_loop up groupskins (Suc j) (row[j mod 4 := up j])"
  by (subst skin_upload_loop.simps) (simp add: nat_and_3)

lemma skin_fill_loop_stop: "\<not> j < 4 \<Longrightarrow> skin_fill_loop k j row = row"
  by (subst skin_fill_loop.simps) simp

lemma skin_fill_loop_step:
  "j < 4 \<Longrightarrow> skin_fill_loop k j row = skin_fill_loop k (Suc j) (row[j mod 4 := row ! (j - k)])"
  by (subst skin_fill_loop.simps) (simp add: nat_and_3)

lemma load_skin_group_1:
  "load_skin_group up 1 [a, b, c, d] = [up 0, up 0, up 0, up 0]"
  by (simp add: load_skin_group_def skin_upload_loop_step skin_upload_loop_stop
      skin_fill_loop_step skin_fill_loop_stop)

lemma load_skin_group_2:
  "load_skin_group up 2 [a, b, c, d] = [up 0, up 1, up 0, up 1]"
  by (simp add: load_skin_group_def skin_upload_loop_step skin_upload_loop_stop
      skin_fill_loop_step skin_fill_loop_stop)

lemma load_skin_group_3:
  "load_skin_group up 3 [a, b, c, d] = [up 0, up 1, up 2, up 0]"
  by (simp add: load_skin_group_def skin_upload_loop_step skin_upload_loop_stop
      skin_fill_loop_step skin_fill_loop_stop numeral_2_eq_2)

text \<open>
  C9, as the code has it. For a skin group of \<open>k\<close> sub-images with \<open>1 \<le> k < 4\<close>, the
  first \<open>k\<close> slots of the row hold the \<open>k\<close> uploaded handles in order, and each further
  slot \<open>j\<close> is filled from slot \<open>j - k\<close>: the row repeats the \<open>k\<close> handles from the first
  one on, slot \<open>j\<close> holding the handle of sub-image \<open>j mod k\<close>, so every slot holds an
  uploaded handle. Only for \<open>k = 1\<close> is that the last sub-image in every further slot.
\<close>

theorem load_skin_group_cycles:
  "1 \<le> k \<and> k < 4 \<and> length row = 4 \<longrightarrow>
     load_skin_group up k row = map (\<lambda>j. up (j mod nat k)) [0 ..< 4]"
proof
  assume h: "1 \<le> k \<and> k < 4 \<and> length row = 4"
  then obtain a b c d where row: "row = [a, b, c, d]"
    by (cases row; simp) (rename_tac x xs, case_tac xs; simp; rename_tac y ys, case_tac ys; simp;
        rename_tac z zs, case_tac zs; simp)
  have up4: "[0 ..< 4] = [0, 1, 2, Suc 2]" by (simp add: upt_rec)
  from h consider "k = 1" | "k = 2" | "k = 3" by linarith
  then show "load_skin_group up k row = map (\<lambda>j. up (j mod nat k)) [0 ..< 4]"
  proof cases
    case 1
    then show ?thesis by (simp add: row up4 load_skin_group_1)
  next
    case 2
    then show ?thesis by (simp add: row up4 load_skin_group_2)
  next
    case 3
    then show ?thesis by (simp add: row up4 load_skin_group_3 mod_Suc)
  qed
qed

theorem load_skin_group_cycles_witness:
  "(1::int) \<le> 3 \<and> (3::int) < 4 \<and> length [0, 0, 0, 0 :: nat] = 4
   \<and> load_skin_group Suc 3 [0, 0, 0, 0] = [1, 2, 3, 1]"
  using load_skin_group_cycles [of 3 "[0, 0, 0, 0]" Suc] by (simp add: upt_rec mod_Suc)

text \<open>
  The claim as stated fails for two sub-images: slot 2 holds the handle of the first
  sub-image (here 1), not that of the last (here 2).
\<close>

theorem load_skin_group_not_last:
  "load_skin_group Suc 2 [0, 0, 0, 0] = [1, 2, 1, 2]
   \<and> load_skin_group Suc 2 [0, 0, 0, 0] ! 2 \<noteq> Suc (2 - 1)"
  by code_simp

subsection \<open>Alias frames and the pose cursor\<close>

lemma group_poses_stop:
  "\<not> int i < daliasgroup_t.numframes g \<Longrightarrow> group_poses M g i st = Returns st"
  by (subst group_poses.simps) simp

lemma group_poses_over:
  "int i < daliasgroup_t.numframes g \<Longrightarrow> M \<le> posenum st \<Longrightarrow> group_poses M g i st = Undefined"
  by (subst group_poses.simps) simp

lemma group_poses_bad:
  "int i < daliasgroup_t.numframes g \<Longrightarrow> posenum st < M \<Longrightarrow> fle (intervals g i) (Fin 0) \<Longrightarrow>
     group_poses M g i st = Fatal (Sys_Error ''Mod_LoadAliasGroup: interval <= 0'')"
  by (subst group_poses.simps) simp

lemma group_poses_step:
  "int i < daliasgroup_t.numframes g \<Longrightarrow> posenum st < M \<Longrightarrow> \<not> fle (intervals g i) (Fin 0) \<Longrightarrow>
     group_poses M g i st =
       group_poses M g (Suc i)
         (st\<lparr>poseverts := (poseverts st)(posenum st := verts (frames g i)),
             poseintervals := (poseintervals st)(posenum st := intervals g i),
             posenum := posenum st + 1\<rparr>)"
  by (subst group_poses.simps) (simp add: Let_def)

lemma group_poses_Returns:
  "group_poses M g i st = Returns st' \<Longrightarrow>
     posenum st' = posenum st + nat (daliasgroup_t.numframes g - int i)
     \<and> (\<forall>j. i \<le> j \<and> int j < daliasgroup_t.numframes g \<longrightarrow>
            \<not> fle (intervals g j) (Fin 0) \<and> posenum st + (j - i) < M
            \<and> poseintervals st' (posenum st + (j - i)) = intervals g j)
     \<and> (\<forall>p < posenum st. poseintervals st' p = poseintervals st p)"
proof (induction M g i st rule: group_poses.induct)
  case (1 M g i st)
  show ?case
  proof (cases "int i < daliasgroup_t.numframes g")
    case False
    with "1.prems" show ?thesis by (auto simp: group_poses_stop)
  next
    case True
    show ?thesis
    proof (cases "M \<le> posenum st")
      case over: True
      with True "1.prems" show ?thesis by (simp add: group_poses_over)
    next
      case room: False
      then have lt: "posenum st < M" by simp
      show ?thesis
      proof (cases "fle (intervals g i) (Fin 0)")
        case bad: True
        with True lt "1.prems" show ?thesis by (simp add: group_poses_bad)
      next
        case good: False
        let ?st1 = "st\<lparr>poseverts := (poseverts st)(posenum st := verts (frames g i)),
                        poseintervals := (poseintervals st)(posenum st := intervals g i)\<rparr>"
        let ?st2 = "?st1\<lparr>posenum := posenum ?st1 + 1\<rparr>"
        have run: "group_poses M g (Suc i) ?st2 = Returns st'"
          using "1.prems" group_poses_step [OF True lt good] by simp
        have "\<not> fle (poseintervals ?st1 (posenum ?st1)) (Fin 0)" using good by simp
        from "1.IH" [OF True room refl this run]
        have n: "posenum st' = posenum ?st2 + nat (daliasgroup_t.numframes g - int (Suc i))"
          and later: "\<forall>j. Suc i \<le> j \<and> int j < daliasgroup_t.numframes g \<longrightarrow>
              \<not> fle (intervals g j) (Fin 0) \<and> posenum ?st2 + (j - Suc i) < M
              \<and> poseintervals st' (posenum ?st2 + (j - Suc i)) = intervals g j"
          and before: "\<forall>p < posenum ?st2. poseintervals st' p = poseintervals ?st2 p"
          by blast+
        from n True have A: "posenum st' = posenum st + nat (daliasgroup_t.numframes g - int i)"
          by simp
        have B: "\<not> fle (intervals g j) (Fin 0) \<and> posenum st + (j - i) < M
            \<and> poseintervals st' (posenum st + (j - i)) = intervals g j"
          if j: "i \<le> j \<and> int j < daliasgroup_t.numframes g" for j
        proof (cases "j = i")
          case True
          with before [rule_format, of "posenum st"] good lt show ?thesis by simp
        next
          case False
          with j have "Suc i \<le> j" by simp
          moreover from this have "posenum ?st2 + (j - Suc i) = posenum st + (j - i)" by simp
          ultimately show ?thesis using later [rule_format, of j] j by simp
        qed
        have C: "poseintervals st' p = poseintervals st p" if "p < posenum st" for p
          using before [rule_format, of p] that by simp
        from A B C show ?thesis by blast
      qed
    qed
  qed
qed

lemma group_poses_Fatal:
  "posenum st + nat (daliasgroup_t.numframes g - int i) \<le> M \<Longrightarrow>
     group_poses M g i st \<noteq> Undefined
     \<and> ((\<exists>e. group_poses M g i st = Fatal e) =
          (\<exists>j. i \<le> j \<and> int j < daliasgroup_t.numframes g \<and> fle (intervals g j) (Fin 0)))"
proof (induction M g i st rule: group_poses.induct)
  case (1 M g i st)
  show ?case
  proof (cases "int i < daliasgroup_t.numframes g")
    case False
    then have "\<not> (\<exists>j. i \<le> j \<and> int j < daliasgroup_t.numframes g \<and> fle (intervals g j) (Fin 0))"
      by auto
    with False show ?thesis by (simp add: group_poses_stop)
  next
    case True
    with "1.prems" have lt: "posenum st < M" by simp
    then have room: "\<not> M \<le> posenum st" by simp
    show ?thesis
    proof (cases "fle (intervals g i) (Fin 0)")
      case bad: True
      with True have "\<exists>j. i \<le> j \<and> int j < daliasgroup_t.numframes g \<and> fle (intervals g j) (Fin 0)"
        by blast
      with True bad lt show ?thesis by (simp add: group_poses_bad)
    next
      case good: False
      let ?st1 = "st\<lparr>poseverts := (poseverts st)(posenum st := verts (frames g i)),
                      poseintervals := (poseintervals st)(posenum st := intervals g i)\<rparr>"
      let ?st2 = "?st1\<lparr>posenum := posenum ?st1 + 1\<rparr>"
      have run: "group_poses M g i st = group_poses M g (Suc i) ?st2"
        using group_poses_step [OF True lt good] by simp
      have g1: "\<not> fle (poseintervals ?st1 (posenum ?st1)) (Fin 0)" using good by simp
      have cap: "posenum ?st2 + nat (daliasgroup_t.numframes g - int (Suc i)) \<le> M"
        using "1.prems" True by simp
      note IH = "1.IH" [OF True room refl g1 cap]
      have "(\<exists>j. i \<le> j \<and> int j < daliasgroup_t.numframes g \<and> fle (intervals g j) (Fin 0))
          = (\<exists>j. Suc i \<le> j \<and> int j < daliasgroup_t.numframes g \<and> fle (intervals g j) (Fin 0))"
        using good by (metis Suc_leI le_neq_implies_less Suc_leD)
      with IH run show ?thesis by simp
    qed
  qed
qed

lemma Mod_LoadAliasGroup_Returns:
  "Mod_LoadAliasGroup M namesize g fr st = Returns (fr', st') \<Longrightarrow>
     firstpose fr' = int (posenum st) \<and> numposes fr' = daliasgroup_t.numframes g
     \<and> posenum st' = posenum st + nat (daliasgroup_t.numframes g)
     \<and> (\<forall>j. int j < daliasgroup_t.numframes g \<longrightarrow>
            \<not> fle (intervals g j) (Fin 0) \<and> posenum st + j < M
            \<and> poseintervals st' (posenum st + j) = intervals g j)"
proof -
  assume a: "Mod_LoadAliasGroup M namesize g fr st = Returns (fr', st')"
  then have run: "group_poses M g 0 st = Returns st'"
    by (auto simp: Mod_LoadAliasGroup_def Let_def split: outcome.splits)
  from a have "firstpose fr' = int (posenum st) \<and> numposes fr' = daliasgroup_t.numframes g"
    by (auto simp: Mod_LoadAliasGroup_def Let_def split: outcome.splits)
  with group_poses_Returns [OF run] show ?thesis by simp
qed

lemma Mod_LoadAliasGroup_Fatal:
  assumes "posenum st + nat (daliasgroup_t.numframes g) \<le> M"
  shows "Mod_LoadAliasGroup M namesize g fr st \<noteq> Undefined
     \<and> ((\<exists>e. Mod_LoadAliasGroup M namesize g fr st = Fatal e) =
          (\<exists>j. int j < daliasgroup_t.numframes g \<and> fle (intervals g j) (Fin 0)))"
proof -
  have "(\<exists>e. Mod_LoadAliasGroup M namesize g fr st = Fatal e) = (\<exists>e. group_poses M g 0 st = Fatal e)"
    "(Mod_LoadAliasGroup M namesize g fr st = Undefined) = (group_poses M g 0 st = Undefined)"
    by (auto simp: Mod_LoadAliasGroup_def Let_def split: outcome.splits)
  with group_poses_Fatal [of st g 0 M] assms show ?thesis by simp
qed

lemma Mod_LoadAliasFrame_Returns:
  "Mod_LoadAliasFrame M namesize f fr st = Returns (fr', st') \<Longrightarrow>
     firstpose fr' = int (posenum st) \<and> numposes fr' = 1 \<and> posenum st' = posenum st + 1
     \<and> posenum st < M \<and> poseintervals st' (posenum st) = Fin 999"
  by (auto simp: Mod_LoadAliasFrame_def Let_def split: if_splits)

lemma load_frames_Returns:
  "load_frames M namesize fs st = Returns (descs, st') \<Longrightarrow>
     length descs = length fs
     \<and> posenum st' = posenum st + sum_list (map frame_poses fs)
     \<and> (\<forall>i < length fs.
           firstpose (descs ! i) = int (posenum st + sum_list (map frame_poses (take i fs)))
           \<and> numposes (descs ! i) =
               (case fs ! i of ALIAS_SINGLE f \<Rightarrow> 1 | ALIAS_GROUP g \<Rightarrow> daliasgroup_t.numframes g))"
proof (induction fs arbitrary: st descs)
  case Nil
  then show ?case by simp
next
  case (Cons f fs)
  show ?case
  proof (cases f)
    case (ALIAS_SINGLE s)
    with Cons.prems obtain fr st1 frs where
      one: "Mod_LoadAliasFrame M namesize s frame_zero st = Returns (fr, st1)" and
      rest: "load_frames M namesize fs st1 = Returns (frs, st')" and descs: "descs = fr # frs"
      by (auto split: outcome.splits)
    from Mod_LoadAliasFrame_Returns [OF one]
    have fr: "firstpose fr = int (posenum st)" "numposes fr = 1"
      and st1: "posenum st1 = posenum st + 1"
      by simp_all
    note IH = Cons.IH [OF rest]
    have "firstpose (descs ! i) = int (posenum st + sum_list (map frame_poses (take i (f # fs))))
        \<and> numposes (descs ! i) =
            (case (f # fs) ! i of ALIAS_SINGLE f \<Rightarrow> 1 | ALIAS_GROUP g \<Rightarrow> daliasgroup_t.numframes g)"
      if "i < length (f # fs)" for i
    proof (cases i)
      case 0
      with fr descs ALIAS_SINGLE show ?thesis by simp
    next
      case (Suc k)
      with that have "k < length fs" by simp
      with IH Suc descs st1 ALIAS_SINGLE show ?thesis by simp
    qed
    with IH descs st1 ALIAS_SINGLE show ?thesis by simp
  next
    case (ALIAS_GROUP g)
    with Cons.prems obtain fr st1 frs where
      one: "Mod_LoadAliasGroup M namesize g frame_zero st = Returns (fr, st1)" and
      rest: "load_frames M namesize fs st1 = Returns (frs, st')" and descs: "descs = fr # frs"
      by (auto split: outcome.splits)
    from Mod_LoadAliasGroup_Returns [OF one]
    have fr: "firstpose fr = int (posenum st)" "numposes fr = daliasgroup_t.numframes g"
      and st1: "posenum st1 = posenum st + nat (daliasgroup_t.numframes g)"
      by simp_all
    note IH = Cons.IH [OF rest]
    have "firstpose (descs ! i) = int (posenum st + sum_list (map frame_poses (take i (f # fs))))
        \<and> numposes (descs ! i) =
            (case (f # fs) ! i of ALIAS_SINGLE f \<Rightarrow> 1 | ALIAS_GROUP g \<Rightarrow> daliasgroup_t.numframes g)"
      if "i < length (f # fs)" for i
    proof (cases i)
      case 0
      with fr descs ALIAS_GROUP show ?thesis by simp
    next
      case (Suc k)
      with that have "k < length fs" by simp
      with IH Suc descs st1 ALIAS_GROUP show ?thesis by simp
    qed
    with IH descs st1 ALIAS_GROUP show ?thesis by simp
  qed
qed

lemma load_frames_Fatal:
  "posenum st + sum_list (map frame_poses fs) \<le> M \<Longrightarrow>
     load_frames M namesize fs st \<noteq> Undefined
     \<and> ((\<exists>e. load_frames M namesize fs st = Fatal e) =
          (\<exists>g j. ALIAS_GROUP g \<in> set fs \<and> int j < daliasgroup_t.numframes g
                 \<and> fle (intervals g j) (Fin 0)))"
proof (induction fs arbitrary: st)
  case Nil
  then show ?case by simp
next
  case (Cons f fs)
  show ?case
  proof (cases f)
    case (ALIAS_SINGLE s)
    from Cons.prems ALIAS_SINGLE have lt: "posenum st < M" by simp
    then obtain fr st1 where one: "Mod_LoadAliasFrame M namesize s frame_zero st = Returns (fr, st1)"
      by (simp add: Mod_LoadAliasFrame_def Let_def)
    from Mod_LoadAliasFrame_Returns [OF one] have st1: "posenum st1 = posenum st + 1" by simp
    with Cons.prems ALIAS_SINGLE have cap: "posenum st1 + sum_list (map frame_poses fs) \<le> M"
      by simp
    from one ALIAS_SINGLE
    have "(\<exists>e. load_frames M namesize (f # fs) st = Fatal e) = (\<exists>e. load_frames M namesize fs st1 = Fatal e)"
      "(load_frames M namesize (f # fs) st = Undefined) = (load_frames M namesize fs st1 = Undefined)"
      by (auto split: outcome.splits)
    with Cons.IH [OF cap] ALIAS_SINGLE show ?thesis by auto
  next
    case (ALIAS_GROUP g)
    from Cons.prems ALIAS_GROUP have capg: "posenum st + nat (daliasgroup_t.numframes g) \<le> M"
      by simp
    note G = Mod_LoadAliasGroup_Fatal [OF capg, of namesize frame_zero]
    show ?thesis
    proof (cases "Mod_LoadAliasGroup M namesize g frame_zero st")
      case (Fatal e)
      with G have "\<exists>j. int j < daliasgroup_t.numframes g \<and> fle (intervals g j) (Fin 0)" by blast
      with Fatal ALIAS_GROUP show ?thesis by auto
    next
      case Undefined
      with G show ?thesis by simp
    next
      case (Returns p)
      obtain fr st1 where p: "p = (fr, st1)" by (cases p)
      from Returns G
      have ok: "\<not> (\<exists>j. int j < daliasgroup_t.numframes g \<and> fle (intervals g j) (Fin 0))" by auto
      from Returns p Mod_LoadAliasGroup_Returns [of M namesize g frame_zero st fr st1]
      have st1: "posenum st1 = posenum st + nat (daliasgroup_t.numframes g)" by simp
      with Cons.prems ALIAS_GROUP have cap: "posenum st1 + sum_list (map frame_poses fs) \<le> M"
        by simp
      from Returns p ALIAS_GROUP
      have "(\<exists>e. load_frames M namesize (f # fs) st = Fatal e) = (\<exists>e. load_frames M namesize fs st1 = Fatal e)"
        "(load_frames M namesize (f # fs) st = Undefined) = (load_frames M namesize fs st1 = Undefined)"
        by (auto split: outcome.splits)
      with Cons.IH [OF cap] ALIAS_GROUP ok show ?thesis by auto
    qed
  qed
qed

text \<open>
  C4, as the code has it. The cursor is set to zero before the frame loop and is the
  only source of \<open>firstpose\<close>. A single frame gets \<open>firstpose\<close> the cursor and \<open>numposes\<close>
  1 and moves the cursor by one. A group gets \<open>firstpose\<close> the cursor and \<open>numposes\<close> its
  sub-frame count, reads one interval per sub-frame into the interval table and moves
  the cursor by one for each. Where the poses fit into the tables of \<open>MAXALIASFRAMES\<close>
  entries, the load is fatal exactly when one of these intervals compares \<open>\<le> 0\<close>. Such
  an interval is a number that is not positive, or minus infinity; an interval that is
  not a number passes the test. After the loop frame \<open>i\<close> starts at the number of poses
  of the frames before it, and the pose count is the sum over all frames. A single frame
  followed by a group of three gives 4 poses, frame 0 with
  \<open>(firstpose, numposes) = (0, 1)\<close> and frame 1 with \<open>(1, 3)\<close>.
\<close>

theorem alias_pose_cursor:
  "(posenum st < M \<longrightarrow>
       (\<exists>fr' st'. Mod_LoadAliasFrame M namesize f fr st = Returns (fr', st')
           \<and> firstpose fr' = int (posenum st) \<and> numposes fr' = 1 \<and> posenum st' = posenum st + 1))
   \<and> (\<forall>fr' st'. Mod_LoadAliasGroup M namesize g fr st = Returns (fr', st') \<longrightarrow>
       firstpose fr' = int (posenum st) \<and> numposes fr' = daliasgroup_t.numframes g
       \<and> posenum st' = posenum st + nat (daliasgroup_t.numframes g)
       \<and> (\<forall>j. int j < daliasgroup_t.numframes g \<longrightarrow>
              \<not> fle (intervals g j) (Fin 0) \<and> poseintervals st' (posenum st + j) = intervals g j))
   \<and> (posenum st + nat (daliasgroup_t.numframes g) \<le> M \<longrightarrow>
       Mod_LoadAliasGroup M namesize g fr st \<noteq> Undefined
       \<and> ((\<exists>e. Mod_LoadAliasGroup M namesize g fr st = Fatal e) =
            (\<exists>j. int j < daliasgroup_t.numframes g \<and> fle (intervals g j) (Fin 0))))
   \<and> (\<forall>descs n st'. load_alias_frames M namesize fs st = Returns (descs, n, st') \<longrightarrow>
       length descs = length fs \<and> n = int (sum_list (map frame_poses fs))
       \<and> (\<forall>i < length fs.
             firstpose (descs ! i) = int (sum_list (map frame_poses (take i fs)))
             \<and> numposes (descs ! i) =
                 (case fs ! i of ALIAS_SINGLE s \<Rightarrow> 1 | ALIAS_GROUP g \<Rightarrow> daliasgroup_t.numframes g)))
   \<and> (sum_list (map frame_poses fs) \<le> M \<longrightarrow>
       load_alias_frames M namesize fs st \<noteq> Undefined
       \<and> ((\<exists>e. load_alias_frames M namesize fs st = Fatal e) =
            (\<exists>g j. ALIAS_GROUP g \<in> set fs \<and> int j < daliasgroup_t.numframes g
                   \<and> fle (intervals g j) (Fin 0))))
   \<and> fle (Fin x) (Fin 0) = (x \<le> 0) \<and> fle NInf (Fin 0) \<and> \<not> fle PInf (Fin 0) \<and> \<not> fle NaN (Fin 0)
   \<and> (case load_alias_frames 256 16 [ALIAS_SINGLE single_example, ALIAS_GROUP group_example]
              pose_tables_init of
         Returns (descs, n, st') \<Rightarrow> Some (map (\<lambda>d. (firstpose d, numposes d)) descs, n)
       | _ \<Rightarrow> None)
       = Some ([(0, 1), (1, 3)], 4)"
proof (intro conjI allI impI)
  assume "posenum st < M"
  then show "\<exists>fr' st'. Mod_LoadAliasFrame M namesize f fr st = Returns (fr', st')
           \<and> firstpose fr' = int (posenum st) \<and> numposes fr' = 1 \<and> posenum st' = posenum st + 1"
    by (simp add: Mod_LoadAliasFrame_def Let_def)
next
  fix fr' st'
  assume a: "Mod_LoadAliasGroup M namesize g fr st = Returns (fr', st')"
  from Mod_LoadAliasGroup_Returns [OF a]
  show "firstpose fr' = int (posenum st)" "numposes fr' = daliasgroup_t.numframes g"
    "posenum st' = posenum st + nat (daliasgroup_t.numframes g)"
    by simp_all
  fix j
  assume "int j < daliasgroup_t.numframes g"
  with Mod_LoadAliasGroup_Returns [OF a]
  show "\<not> fle (intervals g j) (Fin 0)" "poseintervals st' (posenum st + j) = intervals g j"
    by simp_all
next
  assume cap: "posenum st + nat (daliasgroup_t.numframes g) \<le> M"
  from Mod_LoadAliasGroup_Fatal [OF cap]
  show "Mod_LoadAliasGroup M namesize g fr st \<noteq> Undefined"
    "(\<exists>e. Mod_LoadAliasGroup M namesize g fr st = Fatal e) =
       (\<exists>j. int j < daliasgroup_t.numframes g \<and> fle (intervals g j) (Fin 0))"
    by simp_all
next
  fix descs n st'
  assume "load_alias_frames M namesize fs st = Returns (descs, n, st')"
  then have run: "load_frames M namesize fs (st\<lparr>posenum := 0\<rparr>) = Returns (descs, st')"
    and n: "n = int (posenum st')"
    by (auto simp: load_alias_frames_def split: outcome.splits)
  from load_frames_Returns [OF run] n
  show "length descs = length fs" "n = int (sum_list (map frame_poses fs))"
    by simp_all
  fix i
  assume "i < length fs"
  with load_frames_Returns [OF run]
  show "firstpose (descs ! i) = int (sum_list (map frame_poses (take i fs)))"
    "numposes (descs ! i) =
       (case fs ! i of ALIAS_SINGLE s \<Rightarrow> 1 | ALIAS_GROUP g \<Rightarrow> daliasgroup_t.numframes g)"
    by simp_all
next
  assume cap: "sum_list (map frame_poses fs) \<le> M"
  have "(\<exists>e. load_alias_frames M namesize fs st = Fatal e) =
        (\<exists>e. load_frames M namesize fs (st\<lparr>posenum := 0\<rparr>) = Fatal e)"
    "(load_alias_frames M namesize fs st = Undefined) =
        (load_frames M namesize fs (st\<lparr>posenum := 0\<rparr>) = Undefined)"
    by (auto simp: load_alias_frames_def split: outcome.splits)
  with load_frames_Fatal [of "st\<lparr>posenum := 0\<rparr>" fs M namesize] cap
  show "load_alias_frames M namesize fs st \<noteq> Undefined"
    "(\<exists>e. load_alias_frames M namesize fs st = Fatal e) =
        (\<exists>g j. ALIAS_GROUP g \<in> set fs \<and> int j < daliasgroup_t.numframes g
               \<and> fle (intervals g j) (Fin 0))"
    by simp_all
next
  show "fle (Fin x) (Fin 0) = (x \<le> 0)" "fle NInf (Fin 0)" "\<not> fle PInf (Fin 0)" "\<not> fle NaN (Fin 0)"
    by simp_all
next
  show "(case load_alias_frames 256 16 [ALIAS_SINGLE single_example, ALIAS_GROUP group_example]
              pose_tables_init of
         Returns (descs, n, st') \<Rightarrow> Some (map (\<lambda>d. (firstpose d, numposes d)) descs, n)
       | _ \<Rightarrow> None)
       = Some ([(0, 1), (1, 3)], 4)"
    by (simp add: load_alias_frames_def Mod_LoadAliasFrame_def Mod_LoadAliasGroup_def
        group_example_def single_example_def pose_tables_init_def frame_zero_def
        group_poses_step group_poses_stop)
qed

text \<open>
  The theorem at the single frame followed by the group of three, with tables of 256
  entries: the load returns with 4 poses; the group alone gives 3 poses and stores its
  intervals; the same group with every interval zero is fatal.
\<close>

theorem alias_pose_cursor_witness:
  "(case load_alias_frames 256 16 [ALIAS_SINGLE single_example, ALIAS_GROUP group_example]
          pose_tables_init of
      Returns (descs, n, st') \<Rightarrow>
        length descs = 2 \<and> n = 4 \<and> firstpose (descs ! 0) = 0 \<and> numposes (descs ! 0) = 1
        \<and> firstpose (descs ! 1) = 1 \<and> numposes (descs ! 1) = 3
    | _ \<Rightarrow> False)
   \<and> (case Mod_LoadAliasGroup 256 16 (group_example\<lparr>intervals := (\<lambda>i. Fin 0)\<rparr>) frame_zero
            pose_tables_init of
        Fatal e \<Rightarrow> True
      | _ \<Rightarrow> False)
   \<and> (case Mod_LoadAliasGroup 256 16 group_example frame_zero pose_tables_init of
        Returns (fr', st') \<Rightarrow> numposes fr' = 3 \<and> posenum st' = 3 \<and> poseintervals st' 2 = Fin (1 / 8)
      | _ \<Rightarrow> False)
   \<and> (case Mod_LoadAliasFrame 256 16 single_example frame_zero pose_tables_init of
        Returns (fr', st') \<Rightarrow> numposes fr' = 1 \<and> posenum st' = 1
      | _ \<Rightarrow> False)"
proof -
  let ?fs = "[ALIAS_SINGLE single_example, ALIAS_GROUP group_example]"
  note t = alias_pose_cursor [of pose_tables_init 256 16 single_example frame_zero group_example ?fs 0]
  have capfs: "sum_list (map frame_poses ?fs) \<le> 256"
    by (simp add: group_example_def)
  have good: "\<not> (\<exists>g j. ALIAS_GROUP g \<in> set ?fs \<and> int j < daliasgroup_t.numframes g
                  \<and> fle (intervals g j) (Fin 0))"
    by (auto simp: group_example_def)
  have A: "case load_alias_frames 256 16 ?fs pose_tables_init of
      Returns (descs, n, st') \<Rightarrow>
        length descs = 2 \<and> n = 4 \<and> firstpose (descs ! 0) = 0 \<and> numposes (descs ! 0) = 1
        \<and> firstpose (descs ! 1) = 1 \<and> numposes (descs ! 1) = 3
    | _ \<Rightarrow> False"
  proof (cases "load_alias_frames 256 16 ?fs pose_tables_init")
    case (Fatal e)
    with t capfs good show ?thesis by blast
  next
    case Undefined
    with t capfs show ?thesis by blast
  next
    case (Returns p)
    obtain descs n st' where p: "p = (descs, n, st')" by (cases p)
    from t Returns p have
      "length descs = length ?fs \<and> n = int (sum_list (map frame_poses ?fs))
       \<and> (\<forall>i < length ?fs.
             firstpose (descs ! i) = int (sum_list (map frame_poses (take i ?fs)))
             \<and> numposes (descs ! i) =
                 (case ?fs ! i of ALIAS_SINGLE s \<Rightarrow> 1 | ALIAS_GROUP g \<Rightarrow> daliasgroup_t.numframes g))"
      by blast
    then have "length descs = 2" "n = 4"
      "firstpose (descs ! 0) = 0 \<and> numposes (descs ! 0) = 1"
      "firstpose (descs ! 1) = 1 \<and> numposes (descs ! 1) = 3"
      by (simp_all add: group_example_def)
    with Returns p show ?thesis by simp
  qed
  let ?bad = "group_example\<lparr>intervals := (\<lambda>i. Fin 0)\<rparr>"
  note t2 = alias_pose_cursor [of pose_tables_init 256 16 single_example frame_zero ?bad ?fs 0]
  have capbad: "posenum pose_tables_init + nat (daliasgroup_t.numframes ?bad) \<le> 256"
    by (simp add: group_example_def pose_tables_init_def)
  have "\<exists>j. int j < daliasgroup_t.numframes ?bad \<and> fle (intervals ?bad j) (Fin 0)"
    by (intro exI [of _ 0]) (simp add: group_example_def)
  with t2 capbad obtain e where "Mod_LoadAliasGroup 256 16 ?bad frame_zero pose_tables_init = Fatal e"
    by blast
  then have B: "case Mod_LoadAliasGroup 256 16 ?bad frame_zero pose_tables_init of
        Fatal e \<Rightarrow> True | _ \<Rightarrow> False"
    by simp
  have capg: "posenum pose_tables_init + nat (daliasgroup_t.numframes group_example) \<le> 256"
    by (simp add: group_example_def pose_tables_init_def)
  have C: "case Mod_LoadAliasGroup 256 16 group_example frame_zero pose_tables_init of
        Returns (fr', st') \<Rightarrow> numposes fr' = 3 \<and> posenum st' = 3 \<and> poseintervals st' 2 = Fin (1 / 8)
      | _ \<Rightarrow> False"
  proof (cases "Mod_LoadAliasGroup 256 16 group_example frame_zero pose_tables_init")
    case (Fatal e)
    with t capg
    have "\<exists>j. int j < daliasgroup_t.numframes group_example \<and> fle (intervals group_example j) (Fin 0)"
      by blast
    then show ?thesis by (simp add: group_example_def)
  next
    case Undefined
    with t capg show ?thesis by blast
  next
    case (Returns p)
    obtain fr' st' where p: "p = (fr', st')" by (cases p)
    from t Returns p have "numposes fr' = daliasgroup_t.numframes group_example
       \<and> posenum st' = posenum pose_tables_init + nat (daliasgroup_t.numframes group_example)
       \<and> (\<forall>j. int j < daliasgroup_t.numframes group_example \<longrightarrow>
              \<not> fle (intervals group_example j) (Fin 0)
              \<and> poseintervals st' (posenum pose_tables_init + j) = intervals group_example j)"
      by blast
    then have "numposes fr' = 3" "posenum st' = 3" "poseintervals st' 2 = Fin (1 / 8)"
      by (simp_all add: group_example_def pose_tables_init_def)
    with Returns p show ?thesis by simp
  qed
  have "posenum pose_tables_init < 256" by (simp add: pose_tables_init_def)
  with t obtain fr' st' where
    one: "Mod_LoadAliasFrame 256 16 single_example frame_zero pose_tables_init = Returns (fr', st')"
    and "numposes fr' = 1 \<and> posenum st' = posenum pose_tables_init + 1"
    by blast
  then have D: "case Mod_LoadAliasFrame 256 16 single_example frame_zero pose_tables_init of
        Returns (fr', st') \<Rightarrow> numposes fr' = 1 \<and> posenum st' = 1
      | _ \<Rightarrow> False"
    by (simp add: pose_tables_init_def)
  from A B C D show ?thesis by blast
qed

text \<open>
  The claim as stated fails for an interval that is not a number: it is not strictly
  positive, and the group loads, with this interval in the pose table.
\<close>

theorem alias_group_nan_interval:
  "(case Mod_LoadAliasGroup 256 16 nan_group_example frame_zero pose_tables_init of
      Returns (fr', st') \<Rightarrow>
        numposes fr' = 3 \<and> posenum st' = 3 \<and> map (poseintervals st') [0, 1, 2] = [Fin (1 / 8), NaN, Fin (1 / 8)]
    | _ \<Rightarrow> False)
   \<and> intervals nan_group_example 1 = NaN
   \<and> \<not> flt (Fin 0) (intervals nan_group_example 1)"
  by (simp add: Mod_LoadAliasGroup_def nan_group_example_def group_example_def
      pose_tables_init_def frame_zero_def group_poses_step group_poses_stop)

subsection \<open>Point in leaf\<close>

lemma signed_distance_eq:
  "fsub (DotProduct p (normal pl)) (mplane_t.dist pl) = signed_distance p pl"
  by (cases p; cases "normal pl") (simp add: signed_distance_def)

lemma point_descend_locates:
  assumes run: "point_descend ns0 ls0 p0 node0 = Some y0"
  shows "\<forall>l. y0 = Returns l \<longrightarrow> locates ns0 ls0 p0 node0 l"
proof (rule point_descend.raw_induct
    [where P = "\<lambda>ns ls p node y. \<forall>l. y = Returns l \<longrightarrow> locates ns ls p node l", OF _ run],
    goal_cases)
  case (1 f ns ls p node y)
  note IH = "1"(1) and body = "1"(2)
  show ?case
  proof (intro allI impI)
    fix l
    assume y: "y = Returns l"
    show "locates ns ls p node l"
    proof (cases node)
      case (Leaf i)
      with body y have "mleaf_t.contents (ls i) < 0" and "l = node"
        by (auto split: if_splits)
      with Leaf show ?thesis by (simp add: locates.at_leaf)
    next
      case (Node i)
      show ?thesis
      proof (cases "mnode_t.contents (ns i) < 0")
        case True
        with Node body y have "l = node" by simp
        with Node True show ?thesis by (simp add: locates.at_leaf)
      next
        case False
        show ?thesis
        proof (cases "flt (Fin 0) (signed_distance p (plane (ns i)))")
          case pos: True
          with Node False body have "f ns ls p (fst (children (ns i))) = Some y"
            by (simp add: Let_def signed_distance_eq)
          from IH [OF this] y Node False pos show ?thesis
            by (simp add: locates.to_child0)
        next
          case neg: False
          with Node False body have "f ns ls p (snd (children (ns i))) = Some y"
            by (simp add: Let_def signed_distance_eq)
          from IH [OF this] y Node False neg show ?thesis
            by (simp add: locates.to_child1)
        qed
      qed
    qed
  qed
qed

lemma locates_point_descend:
  "locates ns ls p node l \<Longrightarrow> point_descend ns ls p node = Some (Returns l)"
proof (induction rule: locates.induct)
  case (at_leaf e)
  then show ?case by (cases e) (simp_all add: point_descend.simps)
next
  case (to_child0 i l)
  then show ?case by (subst point_descend.simps) (simp add: Let_def signed_distance_eq)
next
  case (to_child1 i l)
  then show ?case by (subst point_descend.simps) (simp add: Let_def signed_distance_eq)
qed

lemma locates_contents: "locates ns ls p node l \<Longrightarrow> contents_at ns ls l < 0"
  by (induction rule: locates.induct) simp_all

text \<open>
  The loop returns on every tree without cycles: when each node can be given a rank
  that is above the ranks of the nodes among its children.
\<close>

lemma point_descend_returns:
  assumes ranked: "\<And>i j. \<not> mnode_t.contents (ns i) < 0 \<Longrightarrow>
      fst (children (ns i)) = Node j \<or> snd (children (ns i)) = Node j \<Longrightarrow> rank j < (rank i :: nat)"
  shows "\<exists>r. point_descend ns ls p node = Some r"
proof -
  have leaf: "\<exists>r. point_descend ns ls p (Leaf k) = Some r" for k
    by (subst point_descend.simps) simp
  have nd: "\<exists>r. point_descend ns ls p (Node i) = Some r" for i
  proof (induction i rule: measure_induct_rule [where f = rank])
    case (less i)
    show ?case
    proof (cases "mnode_t.contents (ns i) < 0")
      case True
      then show ?thesis by (subst point_descend.simps) simp
    next
      case False
      have child: "\<exists>r. point_descend ns ls p c = Some r"
        if "c = fst (children (ns i)) \<or> c = snd (children (ns i))" for c
      proof (cases c)
        case (Leaf k)
        with leaf show ?thesis by simp
      next
        case (Node j)
        with that ranked [OF False, of j] have "rank j < rank i" by auto
        with less.IH Node show ?thesis by simp
      qed
      from child [of "fst (children (ns i))"] child [of "snd (children (ns i))"] False
      show ?thesis by (subst point_descend.simps) (simp add: Let_def)
    qed
  qed
  show ?thesis by (cases node) (simp_all add: leaf nd)
qed

lemma locates_exists:
  assumes ranked: "\<And>i j. \<not> mnode_t.contents (ns i) < 0 \<Longrightarrow>
      fst (children (ns i)) = Node j \<or> snd (children (ns i)) = Node j \<Longrightarrow> rank j < (rank i :: nat)"
    and leafs_neg: "\<And>k. mleaf_t.contents (ls k) < 0"
  shows "\<exists>l. locates ns ls p node l"
proof -
  have leaf: "\<exists>l. locates ns ls p (Leaf k) l" for k
    using leafs_neg [of k] locates.at_leaf [of ns ls "Leaf k" p] by auto
  have nd: "\<exists>l. locates ns ls p (Node i) l" for i
  proof (induction i rule: measure_induct_rule [where f = rank])
    case (less i)
    show ?case
    proof (cases "mnode_t.contents (ns i) < 0")
      case True
      then show ?thesis using locates.at_leaf [of ns ls "Node i" p] by auto
    next
      case False
      have child: "\<exists>l. locates ns ls p c l"
        if "c = fst (children (ns i)) \<or> c = snd (children (ns i))" for c
      proof (cases c)
        case (Leaf k)
        with leaf show ?thesis by simp
      next
        case (Node j)
        with that ranked [OF False, of j] have "rank j < rank i" by auto
        with less.IH Node show ?thesis by simp
      qed
      show ?thesis
      proof (cases "flt (Fin 0) (signed_distance p (plane (ns i)))")
        case True
        from child [of "fst (children (ns i))"] obtain l
          where "locates ns ls p (fst (children (ns i))) l" by auto
        from locates.to_child0 [OF False True this] show ?thesis ..
      next
        case neg: False
        from child [of "snd (children (ns i))"] obtain l
          where "locates ns ls p (snd (children (ns i))) l" by auto
        from locates.to_child1 [OF False neg this] show ?thesis ..
      qed
    qed
  qed
  show ?thesis by (cases node) (simp_all add: leaf nd)
qed

text \<open>
  C5. The lookup is fatal for a null model and for a null node array. Otherwise it
  returns the element \<open>l\<close> exactly when the descent of the specification leads from the
  root to \<open>l\<close>: child 0 where the signed distance \<open>dot(p, normal) - dist\<close>, as computed in
  \<^verbatim>\<open>float\<close>, is strictly positive, child 1 otherwise (also when it is not a number),
  stopping at the first element with negative \<open>contents\<close>. On a tree without cycles whose
  leafs have negative contents it does return, an element with negative contents. In
  the tree that splits on \<open>x = 0\<close>, the point with \<open>x = 1\<close> is in child 0 of the root and
  the points with \<open>x = - 1\<close> and \<open>x = 0\<close> are in child 1. In the tree of two nodes the
  second plane \<open>3 y + 4 z = 10\<close> sends \<open>(1, 2, 2)\<close> to its child 0 and \<open>(1, 2, 1)\<close>, which
  lies on it, to its child 1. The sums are rounded: \<open>(16777216, 1, 0)\<close> has the computed
  distance 0 from the plane \<open>x + y = 16777216\<close> and is in child 1.
\<close>

theorem Mod_PointInLeaf_descends:
  "Mod_PointInLeaf p None = Some (Fatal (Sys_Error ''Mod_PointInLeaf: bad model''))
   \<and> (nodes m = None \<longrightarrow>
        Mod_PointInLeaf p (Some m) = Some (Fatal (Sys_Error ''Mod_PointInLeaf: bad model'')))
   \<and> (nodes m = Some ns \<longrightarrow>
        (Mod_PointInLeaf p (Some m) = Some (Returns l)) = locates ns (leafs m) p (Node 0) l)
   \<and> (nodes m = Some ns
        \<and> (\<exists>rank :: nat \<Rightarrow> nat. \<forall>i j. \<not> mnode_t.contents (ns i) < 0 \<longrightarrow>
              fst (children (ns i)) = Node j \<or> snd (children (ns i)) = Node j \<longrightarrow> rank j < rank i)
        \<and> (\<forall>k. mleaf_t.contents (leafs m k) < 0) \<longrightarrow>
        (\<exists>e. Mod_PointInLeaf p (Some m) = Some (Returns e) \<and> contents_at ns (leafs m) e < 0))
   \<and> Mod_PointInLeaf (Fin 1, Fin 0, Fin 0) (Some split_x_tree) = Some (Returns (Leaf 1))
   \<and> Mod_PointInLeaf (Fin (- 1), Fin 0, Fin 0) (Some split_x_tree) = Some (Returns (Leaf 2))
   \<and> Mod_PointInLeaf (Fin 0, Fin 0, Fin 0) (Some split_x_tree) = Some (Returns (Leaf 2))
   \<and> Mod_PointInLeaf (NaN, Fin 0, Fin 0) (Some split_x_tree) = Some (Returns (Leaf 2))
   \<and> map_option (\<lambda>ns. children (ns 0)) (nodes split_x_tree) = Some (Leaf 1, Leaf 2)
   \<and> Mod_PointInLeaf (Fin 1, Fin 2, Fin 2) (Some two_level_tree) = Some (Returns (Leaf 2))
   \<and> Mod_PointInLeaf (Fin 1, Fin 2, Fin 1) (Some two_level_tree) = Some (Returns (Leaf 3))
   \<and> Mod_PointInLeaf (Fin (- 1), Fin 2, Fin 2) (Some two_level_tree) = Some (Returns (Leaf 1))
   \<and> Mod_PointInLeaf (Fin 16777216, Fin 1, Fin 0) (Some slanted_tree) = Some (Returns (Leaf 2))
   \<and> Mod_PointInLeaf (Fin 16777216, Fin 2, Fin 0) (Some slanted_tree) = Some (Returns (Leaf 1))"
proof (intro conjI impI)
  show "Mod_PointInLeaf p None = Some (Fatal (Sys_Error ''Mod_PointInLeaf: bad model''))"
    by (simp add: Mod_PointInLeaf_def)
next
  assume "nodes m = None"
  then show "Mod_PointInLeaf p (Some m) = Some (Fatal (Sys_Error ''Mod_PointInLeaf: bad model''))"
    by (simp add: Mod_PointInLeaf_def)
next
  assume "nodes m = Some ns"
  then have "Mod_PointInLeaf p (Some m) = point_descend ns (leafs m) p (Node 0)"
    by (simp add: Mod_PointInLeaf_def)
  then show "(Mod_PointInLeaf p (Some m) = Some (Returns l)) = locates ns (leafs m) p (Node 0) l"
    using point_descend_locates [of ns "leafs m" p "Node 0" "Returns l"]
      locates_point_descend [of ns "leafs m" p "Node 0" l]
    by auto
next
  assume a: "nodes m = Some ns
        \<and> (\<exists>rank :: nat \<Rightarrow> nat. \<forall>i j. \<not> mnode_t.contents (ns i) < 0 \<longrightarrow>
              fst (children (ns i)) = Node j \<or> snd (children (ns i)) = Node j \<longrightarrow> rank j < rank i)
        \<and> (\<forall>k. mleaf_t.contents (leafs m k) < 0)"
  then obtain rank :: "nat \<Rightarrow> nat" where
    ranked: "\<And>i j. \<not> mnode_t.contents (ns i) < 0 \<Longrightarrow>
      fst (children (ns i)) = Node j \<or> snd (children (ns i)) = Node j \<Longrightarrow> rank j < rank i"
    by blast
  from a have leafs_neg: "\<And>k. mleaf_t.contents (leafs m k) < 0" by blast
  from a have eq: "Mod_PointInLeaf p (Some m) = point_descend ns (leafs m) p (Node 0)"
    by (simp add: Mod_PointInLeaf_def)
  from locates_exists [of ns rank "leafs m" p "Node 0"] ranked leafs_neg
  obtain e where e: "locates ns (leafs m) p (Node 0) e" by blast
  from locates_point_descend [OF e] locates_contents [OF e] eq
  show "\<exists>e. Mod_PointInLeaf p (Some m) = Some (Returns e) \<and> contents_at ns (leafs m) e < 0"
    by auto
next
  show "Mod_PointInLeaf (Fin 1, Fin 0, Fin 0) (Some split_x_tree) = Some (Returns (Leaf 1))"
    by (simp add: Mod_PointInLeaf_def split_x_tree_def point_descend.simps float_eval)
next
  show "Mod_PointInLeaf (Fin (- 1), Fin 0, Fin 0) (Some split_x_tree) = Some (Returns (Leaf 2))"
    by (simp add: Mod_PointInLeaf_def split_x_tree_def point_descend.simps float_eval)
next
  show "Mod_PointInLeaf (Fin 0, Fin 0, Fin 0) (Some split_x_tree) = Some (Returns (Leaf 2))"
    by (simp add: Mod_PointInLeaf_def split_x_tree_def point_descend.simps float_eval)
next
  show "Mod_PointInLeaf (NaN, Fin 0, Fin 0) (Some split_x_tree) = Some (Returns (Leaf 2))"
    by (simp add: Mod_PointInLeaf_def split_x_tree_def point_descend.simps float_eval)
next
  show "map_option (\<lambda>ns. children (ns 0)) (nodes split_x_tree) = Some (Leaf 1, Leaf 2)"
    by (simp add: split_x_tree_def)
next
  show "Mod_PointInLeaf (Fin 1, Fin 2, Fin 2) (Some two_level_tree) = Some (Returns (Leaf 2))"
    by (simp add: Mod_PointInLeaf_def two_level_tree_def point_descend.simps float_eval)
next
  show "Mod_PointInLeaf (Fin 1, Fin 2, Fin 1) (Some two_level_tree) = Some (Returns (Leaf 3))"
    by (simp add: Mod_PointInLeaf_def two_level_tree_def point_descend.simps float_eval)
next
  show "Mod_PointInLeaf (Fin (- 1), Fin 2, Fin 2) (Some two_level_tree) = Some (Returns (Leaf 1))"
    by (simp add: Mod_PointInLeaf_def two_level_tree_def point_descend.simps float_eval)
next
  show "Mod_PointInLeaf (Fin 16777216, Fin 1, Fin 0) (Some slanted_tree) = Some (Returns (Leaf 2))"
    by (simp add: Mod_PointInLeaf_def slanted_tree_def point_descend.simps float_eval)
next
  show "Mod_PointInLeaf (Fin 16777216, Fin 2, Fin 0) (Some slanted_tree) = Some (Returns (Leaf 1))"
    by (simp add: Mod_PointInLeaf_def slanted_tree_def point_descend.simps float_eval)
qed

text \<open>
  The theorem at the tree of two nodes and the point \<open>(1, 2, 2)\<close>: the descent leads to
  leaf 2, the tree has no cycle (node 1 ranks below node 0), and leaf 2 has negative
  contents; a tree without a node array is fatal.
\<close>

theorem Mod_PointInLeaf_descends_witness:
  "Mod_PointInLeaf (Fin 1, Fin 2, Fin 2) (Some (two_level_tree\<lparr>nodes := None\<rparr>)) =
       Some (Fatal (Sys_Error ''Mod_PointInLeaf: bad model''))
   \<and> locates (the (nodes two_level_tree)) (leafs two_level_tree) (Fin 1, Fin 2, Fin 2) (Node 0) (Leaf 2)
   \<and> contents_at (the (nodes two_level_tree)) (leafs two_level_tree) (Leaf 2) < 0"
proof -
  let ?ns = "the (nodes two_level_tree)"
  let ?p = "(Fin 1, Fin 2, Fin 2)"
  have A: "Mod_PointInLeaf ?p (Some (two_level_tree\<lparr>nodes := None\<rparr>)) =
       Some (Fatal (Sys_Error ''Mod_PointInLeaf: bad model''))"
    using Mod_PointInLeaf_descends [of ?p "two_level_tree\<lparr>nodes := None\<rparr>"] by simp
  note t = Mod_PointInLeaf_descends [of ?p two_level_tree ?ns "Leaf 2"]
  have n: "nodes two_level_tree = Some ?ns" by (simp add: two_level_tree_def)
  from t have ex: "Mod_PointInLeaf ?p (Some two_level_tree) = Some (Returns (Leaf 2))"
    by blast
  from t n ex have B: "locates ?ns (leafs two_level_tree) ?p (Node 0) (Leaf 2)"
    by blast
  have "\<forall>i j. \<not> mnode_t.contents (?ns i) < 0 \<longrightarrow>
      fst (children (?ns i)) = Node j \<or> snd (children (?ns i)) = Node j \<longrightarrow>
      (if j = 0 then 1 else 0 :: nat) < (if i = 0 then 1 else 0)"
    by (simp add: two_level_tree_def)
  then have ranked: "\<exists>rank :: nat \<Rightarrow> nat. \<forall>i j. \<not> mnode_t.contents (?ns i) < 0 \<longrightarrow>
      fst (children (?ns i)) = Node j \<or> snd (children (?ns i)) = Node j \<longrightarrow> rank j < rank i"
    by (rule exI [where x = "\<lambda>i. if i = 0 then 1 else 0"])
  have neg: "\<forall>k. mleaf_t.contents (leafs two_level_tree k) < 0"
    by (simp add: two_level_tree_def)
  from t n ranked neg obtain e where
    e: "Mod_PointInLeaf ?p (Some two_level_tree) = Some (Returns e)"
       "contents_at ?ns (leafs two_level_tree) e < 0"
    by blast
  with ex have "contents_at ?ns (leafs two_level_tree) (Leaf 2) < 0" by simp
  with A B show ?thesis by blast
qed

subsection \<open>Texture animations\<close>

lemma frame_slot_Primary: "frame_slot nm = Primary k \<Longrightarrow> k < 10"
  by (auto simp: frame_slot_def Let_def split: if_splits)

lemma frame_slot_Alternate: "frame_slot nm = Alternate k \<Longrightarrow> k < 10"
  by (auto simp: frame_slot_def Let_def split: if_splits)

lemma name_key_Primary: "name_key nm = Some (Primary k, S) \<Longrightarrow> k < 10"
  by (auto simp: name_key_def frame_slot_Primary split: if_splits)

lemma name_key_Alternate: "name_key nm = Some (Alternate k, S) \<Longrightarrow> k < 10"
  by (auto simp: name_key_def frame_slot_Alternate split: if_splits)



lemma length_update_texture [simp]: "length (update_texture t f txs) = length txs"
  by (simp add: update_texture_def)



lemma link_generic_Inr_ex:
  "\<forall>j \<in> set js. tab ! j \<noteq> None \<Longrightarrow> \<exists>txs'. link_generic tab F js txs = Inr txs'"
  by (induction js arbitrary: txs) (auto split: option.splits)






lemma tables_ok_mono_same:
  "tables_ok K S M tabs \<Longrightarrow> \<forall>sl. K ! j \<noteq> Some (sl, S) \<Longrightarrow> tables_ok K S (insert j M) tabs"
  unfolding tables_ok_def by (intro conjI; blast)




lemma collect_frames_Inl_bad:
  "collect_frames txs nm js tabs = Inl e \<Longrightarrow> e = Sys_Error ''Bad animating texture''"
  by (induction js arbitrary: tabs)
     (auto simp: add_frame_def split: sum.splits option.splits if_splits anim_slot.splits)


lemma primary_write_name [simp]: "texture_t.name (primary_write tabs j tx) = texture_t.name tx"
  by (simp add: primary_write_def)

lemma alternate_write_name [simp]: "texture_t.name (alternate_write tabs j tx) = texture_t.name tx"
  by (simp add: alternate_write_def)














lemma linked_ok_next: "linked_ok K t (Some tx) \<Longrightarrow> anim_next tx \<noteq> None"
  by (auto simp: linked_ok_def)





end
